theory Spec2Isabelle
  imports Main "HOL-Library.List_Lexorder" "HOL-Library.Multiset"
begin

section \<open>Python strings\<close>

text \<open>
  A Python \<open>str\<close> is a sequence of Unicode code points; a code point is a natural
  number here, so that \<open>length\<close> counts what Python's \<open>len\<close> counts. Literals of the
  source are written with \<open>asc\<close> where they are ASCII and with the code point itself
  where they are not.
\<close>

type_synonym pystr = "nat list"

definition asc :: "string \<Rightarrow> pystr" where
  "asc s = map of_char s"

text \<open>
  The character classes and the lower-casing of Python come from the Unicode character
  database, which is no part of the repository. On ASCII they are written out; beyond
  ASCII they are the three tables of this record.
\<close>

record ucd =
  ucd_alnum :: "nat \<Rightarrow> bool"
  ucd_space :: "nat \<Rightarrow> bool"
  ucd_lower :: "nat \<Rightarrow> pystr"

text \<open>\<open>ch.isalnum()\<close>: digits and letters on ASCII.\<close>

definition isalnum :: "ucd \<Rightarrow> nat \<Rightarrow> bool" where
  "isalnum u c =
     (if c < 128 then (48 \<le> c \<and> c \<le> 57) \<or> (65 \<le> c \<and> c \<le> 90) \<or> (97 \<le> c \<and> c \<le> 122)
      else ucd_alnum u c)"

text \<open>\<open>ch.isspace()\<close>: tab to carriage return, the four separators and the space on ASCII.\<close>

definition isspace :: "ucd \<Rightarrow> nat \<Rightarrow> bool" where
  "isspace u c =
     (if c < 128 then (9 \<le> c \<and> c \<le> 13) \<or> (28 \<le> c \<and> c \<le> 32)
      else ucd_space u c)"

text \<open>\<open>s.strip()\<close> with no argument removes leading and trailing whitespace.\<close>

definition strip :: "ucd \<Rightarrow> pystr \<Rightarrow> pystr" where
  "strip u s = rev (dropWhile (isspace u) (rev (dropWhile (isspace u) s)))"

text \<open>\<open>s.replace(k, v)\<close> for a key \<open>k\<close> of one character.\<close>

definition replace_char :: "nat \<Rightarrow> pystr \<Rightarrow> pystr \<Rightarrow> pystr" where
  "replace_char k v s = concat (map (\<lambda>c. if c = k then v else [c]) s)"

text \<open>\<open>s.lower()\<close>, character by character.\<close>

definition lower :: "ucd \<Rightarrow> pystr \<Rightarrow> pystr" where
  "lower u s =
     concat (map (\<lambda>c. if c < 128 then (if 65 \<le> c \<and> c \<le> 90 then [c + 32] else [c])
                       else ucd_lower u c) s)"

section \<open>Base names\<close>

text \<open>
  \<^verbatim>\<open>
  def clean_filename(name: str) -> str:
      safe = "".join(ch for ch in name if ch.isalnum() or ch in (" ", "-", "_", "."))
      return safe.strip().replace(" ", "_")
  \<close>
\<close>

definition allowed_char :: "ucd \<Rightarrow> nat \<Rightarrow> bool" where
  "allowed_char u ch \<longleftrightarrow> isalnum u ch \<or> ch \<in> set (asc '' -_.'')"

definition clean_filename :: "ucd \<Rightarrow> pystr \<Rightarrow> pystr" where
  "clean_filename u name =
     (let safe = filter (allowed_char u) name
      in replace_char 32 (asc ''_'') (strip u safe))"

section \<open>File names and discovery\<close>

text \<open>
  \<open>Path.suffix\<close> and \<open>Path.stem\<close> of pathlib: with \<open>i = name.rfind('.')\<close>, the suffix
  is \<open>name[i:]\<close> and the stem \<open>name[:i]\<close> when \<open>0 < i < len(name) - 1\<close>; otherwise the
  suffix is empty and the stem is the whole name.
\<close>

fun rfind :: "nat \<Rightarrow> pystr \<Rightarrow> nat option" where
  "rfind c [] = None"
| "rfind c (x # xs) =
     (case rfind c xs of
        Some i \<Rightarrow> Some (Suc i)
      | None \<Rightarrow> if x = c then Some 0 else None)"

definition suffix :: "pystr \<Rightarrow> pystr" where
  "suffix name =
     (case rfind 46 name of
        Some i \<Rightarrow> if 0 < i \<and> i + 1 < length name then drop i name else []
      | None \<Rightarrow> [])"

definition stem :: "pystr \<Rightarrow> pystr" where
  "stem name =
     (case rfind 46 name of
        Some i \<Rightarrow> if 0 < i \<and> i + 1 < length name then take i name else name
      | None \<Rightarrow> name)"

definition VIDEO_EXTS :: "pystr list" where
  "VIDEO_EXTS = map asc [''.mp4'', ''.mov'', ''.mkv'', ''.avi'', ''.mpg'', ''.mpeg'', ''.m4v'', ''.webm'']"

definition AUDIO_EXTS :: "pystr list" where
  "AUDIO_EXTS = map asc [''.wav'', ''.mp3'', ''.m4a'', ''.aac'', ''.flac'', ''.ogg'', ''.opus'', ''.wma'']"

text \<open>
  An entry of the source directory, as \<open>in_dir.iterdir()\<close> yields it: its name and whether
  \<open>is_file()\<close> holds.
\<close>

record entry =
  e_name :: pystr
  e_is_file :: bool

definition is_media :: "ucd \<Rightarrow> entry \<Rightarrow> bool" where
  "is_media u p \<longleftrightarrow> e_is_file p \<and> lower u (suffix (e_name p)) \<in> set (VIDEO_EXTS @ AUDIO_EXTS)"

text \<open>
  \<open>sorted\<close> compares \<open>Path\<close> objects. pathlib compares two paths by their parts, as
  strings (lexicographically, by code point): the parts as they are for a POSIX path,
  and the parts after \<open>str.lower()\<close> for a Windows path. All entries have the same
  parent, so they compare as their names do, lower-cased on Windows.
\<close>

definition path_key :: "ucd \<Rightarrow> bool \<Rightarrow> entry \<Rightarrow> pystr" where
  "path_key u windows p = (if windows then lower u (e_name p) else e_name p)"

text \<open>
  \<^verbatim>\<open>files = sorted([p for p in in_dir.iterdir()
                   if p.is_file() and p.suffix.lower() in (VIDEO_EXTS | AUDIO_EXTS)])\<close>
  \<open>sorted\<close> is stable: entries that compare equal keep the order of the listing.
\<close>

definition discover :: "ucd \<Rightarrow> bool \<Rightarrow> entry list \<Rightarrow> entry list" where
  "discover u windows entries = sort_key (path_key u windows) (filter (is_media u) entries)"

section \<open>The structured response\<close>

text \<open>
  The payload of the service is a tree of scalars, sequences and mappings. \<open>JNull\<close> is
  Python's \<open>None\<close>; a float is a mantissa and a binary exponent: the source inspects
  its truth value (non-zero), and its text is what the environment says it is.
\<close>

datatype json =
    JNull
  | JBool bool
  | JInt int
  | JFloat int int
  | JStr pystr
  | JList "json list"
  | JDict "(pystr \<times> json) list"

datatype pyexc =
    KeyError
  | IndexError
  | TypeError
  | AttributeError
  | FileNotFoundError
  | CalledProcessError
  | OSError
  | ServiceError pystr
  | RenderError pystr

fun truthy :: "json \<Rightarrow> bool" where
  "truthy JNull = False"
| "truthy (JBool b) = b"
| "truthy (JInt i) = (i \<noteq> 0)"
| "truthy (JFloat m e) = (m \<noteq> 0)"
| "truthy (JStr s) = (s \<noteq> [])"
| "truthy (JList l) = (l \<noteq> [])"
| "truthy (JDict d) = (d \<noteq> [])"

text \<open>\<open>v[key]\<close> for a string key: a mapping looks it up, anything else raises.\<close>

fun getitem :: "json \<Rightarrow> pystr \<Rightarrow> pyexc + json" where
  "getitem (JDict kvs) k = (case map_of kvs k of Some v \<Rightarrow> Inr v | None \<Rightarrow> Inl KeyError)"
| "getitem v k = Inl TypeError"

text \<open>\<open>v[0]\<close>: the first element of a list, the first character of a string.\<close>

fun getitem0 :: "json \<Rightarrow> pyexc + json" where
  "getitem0 (JList []) = Inl IndexError"
| "getitem0 (JList (x # xs)) = Inr x"
| "getitem0 (JStr []) = Inl IndexError"
| "getitem0 (JStr (c # cs)) = Inr (JStr [c])"
| "getitem0 (JDict kvs) = Inl KeyError"
| "getitem0 v = Inl TypeError"

text \<open>\<open>v.get(key, default)\<close>: only a mapping has \<open>get\<close>.\<close>

fun dict_get :: "json \<Rightarrow> pystr \<Rightarrow> json \<Rightarrow> pyexc + json" where
  "dict_get (JDict kvs) k d = (case map_of kvs k of Some v \<Rightarrow> Inr v | None \<Rightarrow> Inr d)"
| "dict_get v k d = Inl AttributeError"

text \<open>
  What the extractor is handed: an object of the SDK, whose \<open>to_dict()\<close> returns a value,
  or a plain Python value, which has no \<open>to_dict\<close> and has \<open>keys\<close> only when it is a
  mapping.
\<close>

datatype response = SdkResponse json | Plain json

fun to_dict :: "response \<Rightarrow> pyexc + json" where
  "to_dict (SdkResponse d) = Inr d"
| "to_dict (Plain v) = Inl AttributeError"

fun has_keys :: "response \<Rightarrow> bool" where
  "has_keys (Plain (JDict kvs)) = True"
| "has_keys r = False"

fun plain_value :: "response \<Rightarrow> json" where
  "plain_value (Plain v) = v"
| "plain_value (SdkResponse d) = d"

definition bind_exc :: "pyexc + 'a \<Rightarrow> ('a \<Rightarrow> pyexc + 'b) \<Rightarrow> pyexc + 'b" where
  "bind_exc m f = (case m of Inl e \<Rightarrow> Inl e | Inr x \<Rightarrow> f x)"

text \<open>
  The second \<open>try\<close> block of the extractor:
  \<^verbatim>\<open>
  alt = data["results"]["channels"][0]["alternatives"][0]
  transcript = alt.get("paragraphs", {}).get("transcript") or alt.get("transcript", "") or ""
  confidence = alt.get("confidence")
  \<close>
  \<open>read_alternative\<close> is \<open>Inl\<close> when the block raises before \<open>transcript\<close> is assigned,
  and otherwise the two variables as the block leaves them.
\<close>

definition first_alternative :: "json \<Rightarrow> pyexc + json" where
  "first_alternative data =
     bind_exc (getitem data (asc ''results'')) (\<lambda>res.
     bind_exc (getitem res (asc ''channels'')) (\<lambda>chs.
     bind_exc (getitem0 chs) (\<lambda>ch.
     bind_exc (getitem ch (asc ''alternatives'')) (\<lambda>alts.
     getitem0 alts))))"

definition read_alternative :: "json \<Rightarrow> pyexc + (json \<times> json)" where
  "read_alternative data =
     bind_exc (first_alternative data) (\<lambda>alt.
     bind_exc (dict_get alt (asc ''paragraphs'') (JDict [])) (\<lambda>paras.
     bind_exc (dict_get paras (asc ''transcript'') JNull) (\<lambda>v1.
     bind_exc (if truthy v1 then Inr v1
               else bind_exc (dict_get alt (asc ''transcript'') (JStr [])) (\<lambda>v2.
                    Inr (if truthy v2 then v2 else JStr []))) (\<lambda>transcript.
     (case dict_get alt (asc ''confidence'') JNull of
        Inr confidence \<Rightarrow> Inr (transcript, confidence)
      | Inl e \<Rightarrow> Inr (transcript, JNull))))))"

definition could_not_process :: pystr where
  "could_not_process = asc ''[Error: Could not process response object]''"

text \<open>
  \<^verbatim>\<open>
  def extract_transcript_from_response(response_obj):
      data = {}
      try:
          data = response_obj.to_dict()
      except Exception:
          if hasattr(response_obj, 'keys'):
              data = response_obj
          else:
              return "[Error: Could not process response object]", {}, None
      transcript = ""
      confidence = None
      try:
          ...
      except Exception:
          pass
      return transcript, data, confidence
  \<close>
  The result is a sum so that a raise of the extractor would be a value \<open>Inl\<close>.
\<close>

definition extract_transcript_from_response :: "response \<Rightarrow> pyexc + (json \<times> json \<times> json)" where
  "extract_transcript_from_response response_obj =
     (case to_dict response_obj of
        Inr data \<Rightarrow>
          (case read_alternative data of
             Inr (transcript, confidence) \<Rightarrow> Inr (transcript, data, confidence)
           | Inl e \<Rightarrow> Inr (JStr [], data, JNull))
      | Inl e \<Rightarrow>
          if has_keys response_obj then
            (case read_alternative (plain_value response_obj) of
               Inr (transcript, confidence) \<Rightarrow> Inr (transcript, plain_value response_obj, confidence)
             | Inl e \<Rightarrow> Inr (JStr [], plain_value response_obj, JNull))
          else Inr (JStr could_not_process, JDict [], JNull))"

section \<open>Rendering the document\<close>

text \<open>
  \<^verbatim>\<open>
  def _sanitize_for_core_fonts(s: str) -> str:
      replacements = {
          em dash: '-', en dash: '-', ellipsis: '...', left and right double quote: '"',
          left and right single quote: "'", no-break space: ' ', zero-width space: ''
      }
      for k, v in replacements.items():
          s = s.replace(k, v)
      try:
          return s.encode('latin-1', 'replace').decode('latin-1')
      except Exception:
          return s
  \<close>
  Encoding to Latin-1 with the handler \<open>replace\<close> turns every code point above 255 into a
  question mark and does not raise.
\<close>

definition replacements :: "(nat \<times> pystr) list" where
  "replacements =
     [(8212, [45]), (8211, [45]), (8230, [46, 46, 46]), (8220, [34]), (8221, [34]),
      (8216, [39]), (8217, [39]), (160, [32]), (8203, [])]"

definition latin1_replace :: "pystr \<Rightarrow> pystr" where
  "latin1_replace s = map (\<lambda>c. if c < 256 then c else 63) s"

definition sanitize_for_core_fonts :: "pystr \<Rightarrow> pystr" where
  "sanitize_for_core_fonts s =
     latin1_replace (foldl (\<lambda>s (k, v). replace_char k v s) s replacements)"

text \<open>
  \<open>text.splitlines()\<close>: a line ends at a line feed, a carriage return (with the line feed
  that follows it, if any), a vertical tab, a form feed, a file, group or record
  separator, a next-line character, or a Unicode line or paragraph separator; a line
  break at the very end opens no further line.
\<close>

definition is_linebreak :: "nat \<Rightarrow> bool" where
  "is_linebreak c \<longleftrightarrow> c \<in> {10, 11, 12, 13, 28, 29, 30, 133, 8232, 8233}"

fun splitlines_from :: "pystr \<Rightarrow> pystr \<Rightarrow> pystr list" where
  "splitlines_from cur [] = (if cur = [] then [] else [rev cur])"
| "splitlines_from cur [c] =
     (if is_linebreak c then [rev cur] else [rev (c # cur)])"
| "splitlines_from cur (c # d # cs) =
     (if c = 13 \<and> d = 10 then rev cur # splitlines_from [] cs
      else if is_linebreak c then rev cur # splitlines_from [] (d # cs)
      else splitlines_from (c # cur) (d # cs))"

definition splitlines :: "pystr \<Rightarrow> pystr list" where
  "splitlines s = splitlines_from [] s"

text \<open>
  Font files. \<open>_find_unicode_font_paths\<close> looks into a \<open>fonts\<close> directory beside the
  script and into the Windows font directory; the caller may name files of its own.
  Which files exist, and which of them the PDF library accepts, is the environment's.
\<close>

datatype fontpath = LocalFont pystr | WinFont pystr | UserFont pystr

record font_env =
  fe_exists :: "fontpath \<Rightarrow> bool"
  fe_win_fonts :: bool
  fe_add_font_ok :: "fontpath \<Rightarrow> bool"

fun first_pair :: "(fontpath \<Rightarrow> bool) \<Rightarrow> (fontpath \<times> fontpath) list
    \<Rightarrow> (fontpath option \<times> fontpath option) option" where
  "first_pair ex [] = None"
| "first_pair ex ((reg_p, bold_p) # rest) =
     (if ex reg_p then Some (Some reg_p, if ex bold_p then Some bold_p else None)
      else first_pair ex rest)"

definition local_candidates :: "(fontpath \<times> fontpath) list" where
  "local_candidates =
     [(LocalFont (asc ''DejaVuSans.ttf''), LocalFont (asc ''DejaVuSans-Bold.ttf'')),
      (LocalFont (asc ''NotoSans-Regular.ttf''), LocalFont (asc ''NotoSans-Bold.ttf'')),
      (LocalFont (asc ''Inter-Regular.ttf''), LocalFont (asc ''Inter-Bold.ttf''))]"

definition win_pairs :: "(fontpath \<times> fontpath) list" where
  "win_pairs =
     [(WinFont (asc ''segoeui.ttf''), WinFont (asc ''segoeuib.ttf'')),
      (WinFont (asc ''arial.ttf''), WinFont (asc ''arialbd.ttf'')),
      (WinFont (asc ''calibri.ttf''), WinFont (asc ''calibrib.ttf'')),
      (WinFont (asc ''times.ttf''), WinFont (asc ''timesbd.ttf''))]"

definition find_unicode_font_paths :: "font_env \<Rightarrow> fontpath option \<times> fontpath option" where
  "find_unicode_font_paths fe =
     (case first_pair (fe_exists fe) local_candidates of
        Some r \<Rightarrow> r
      | None \<Rightarrow>
          (case (if fe_win_fonts fe then first_pair (fe_exists fe) win_pairs else None) of
             Some r \<Rightarrow> r
           | None \<Rightarrow> (None, None)))"

text \<open>
  The document is the sequence of calls made on the \<open>FPDF\<close> object after its first page
  is added. The family of a font is \<open>"U"\<close> or \<open>"Helvetica"\<close>, and the test
  \<open>'Helvetica' in font[0]\<close> of the source holds for the second only.
\<close>

datatype family = FontU | Helvetica

datatype pdf_op =
    AddFont pystr fontpath
  | SetFont family pystr nat
  | Cell nat nat pystr
  | MultiCell nat nat pystr
  | Ln nat

text \<open>
  The font choice of \<open>to_pdf\<close>: whether the core fonts are used, and the \<open>add_font\<close>
  calls that succeeded. An empty path string counts as no path.
\<close>

definition given_path :: "pystr option \<Rightarrow> fontpath option" where
  "given_path p = (case p of None \<Rightarrow> None | Some s \<Rightarrow> if s = [] then None else Some (UserFont s))"

definition choose_fonts :: "font_env \<Rightarrow> pystr option \<Rightarrow> pystr option
    \<Rightarrow> bool \<times> pdf_op list \<times> (family \<times> pystr \<times> nat)" where
  "choose_fonts fe font_regular font_bold =
     (let chosen_reg = given_path font_regular;
          chosen_bold = given_path font_bold;
          (found_reg, auto_bold) = find_unicode_font_paths fe;
          reg_ttf = (if chosen_reg \<noteq> None then chosen_reg else found_reg);
          bold_ttf = (if chosen_bold \<noteq> None then chosen_bold else auto_bold)
      in case reg_ttf of
           None \<Rightarrow> (True, [], (Helvetica, asc ''B'', 16))
         | Some reg \<Rightarrow>
             if \<not> fe_add_font_ok fe reg then (True, [], (Helvetica, asc ''B'', 16))
             else (case bold_ttf of
                     None \<Rightarrow> (False, [AddFont [] reg], (FontU, [], 16))
                   | Some bold \<Rightarrow>
                       if fe_exists fe bold then
                         (if fe_add_font_ok fe bold
                          then (False, [AddFont [] reg, AddFont (asc ''B'') bold], (FontU, asc ''B'', 16))
                          else (True, [AddFont [] reg], (Helvetica, asc ''B'', 16)))
                       else (False, [AddFont [] reg], (FontU, [], 16))))"

definition body_font :: "bool \<Rightarrow> family \<times> pystr \<times> nat" where
  "body_font using_core = (if using_core then (Helvetica, [], 12) else (FontU, [], 12))"

definition meta_font :: "bool \<Rightarrow> family \<times> pystr \<times> nat" where
  "meta_font using_core = (if using_core then (Helvetica, [], 10) else (FontU, [], 10))"

definition set_font :: "family \<times> pystr \<times> nat \<Rightarrow> pdf_op" where
  "set_font f = (case f of (fam, style, sz) \<Rightarrow> SetFont fam style sz)"

text \<open>
  The header block of \<open>to_pdf\<close> (absent in minimal mode):
  \<^verbatim>\<open>
  pdf.set_font(*header_font)
  title_safe = title.replace(em dash, "-").replace(en dash, "-")
  if 'Helvetica' in header_font[0]:
      title_safe = _sanitize_for_core_fonts(title_safe)
  pdf.cell(0, 10, title_safe, ln=True)
  pdf.set_font(*meta_font)
  gen_line = f"Generated: {datetime.now().strftime('%Y-%m-%d %H:%M:%S')}"
  if 'Helvetica' in meta_font[0]:
      gen_line = _sanitize_for_core_fonts(gen_line)
  pdf.cell(0, 8, gen_line, ln=True)
  if meta and "info" in meta:
      info_line = str(meta["info"])
      if 'Helvetica' in meta_font[0]:
          info_line = _sanitize_for_core_fonts(info_line)
      pdf.multi_cell(0, 6, f"Info: {info_line}")
  pdf.ln(3)
  \<close>
  \<open>now\<close> is the formatted time of the call; \<open>meta\<close> maps strings to strings.
\<close>

definition title_safe :: "bool \<Rightarrow> pystr \<Rightarrow> pystr" where
  "title_safe core title =
     (let t = replace_char 8211 [45] (replace_char 8212 [45] title)
      in if core then sanitize_for_core_fonts t else t)"

definition gen_line :: "bool \<Rightarrow> pystr \<Rightarrow> pystr" where
  "gen_line core now =
     (let g = asc ''Generated: '' @ now
      in if core then sanitize_for_core_fonts g else g)"

definition info_line :: "bool \<Rightarrow> pystr \<Rightarrow> pystr" where
  "info_line core info = (if core then sanitize_for_core_fonts info else info)"

definition header_ops :: "bool \<Rightarrow> family \<times> pystr \<times> nat \<Rightarrow> pystr \<Rightarrow> pystr
    \<Rightarrow> (pystr \<times> pystr) list option \<Rightarrow> pdf_op list" where
  "header_ops core header_font now title meta =
     [set_font header_font, Cell 0 10 (title_safe core title),
      set_font (meta_font core), Cell 0 8 (gen_line core now)]
     @ (case meta of
          None \<Rightarrow> []
        | Some m \<Rightarrow>
            (case map_of m (asc ''info'') of
               None \<Rightarrow> []
             | Some info \<Rightarrow> [MultiCell 0 6 (asc ''Info: '' @ info_line core info)]))
     @ [Ln 3]"

text \<open>
  The body:
  \<^verbatim>\<open>
  for line in text.splitlines():
      out = line
      if 'Helvetica' in body_font[0]:
          out = _sanitize_for_core_fonts(out)
      if not out.strip():
          pdf.ln(4)
      else:
          pdf.multi_cell(0, 6, out)
  \<close>
\<close>

definition body_out :: "bool \<Rightarrow> pystr \<Rightarrow> pystr" where
  "body_out core line = (if core then sanitize_for_core_fonts line else line)"

definition body_op :: "ucd \<Rightarrow> bool \<Rightarrow> pystr \<Rightarrow> pdf_op" where
  "body_op u core line =
     (let out = body_out core line
      in if strip u out = [] then Ln 4 else MultiCell 0 6 out)"

text \<open>
  \<open>to_pdf\<close>: the calls made on the document, or the exception of the PDF library when
  one of them or the final \<open>pdf.output\<close> raises (\<open>fails\<close>, the environment's).
\<close>

definition to_pdf :: "ucd \<Rightarrow> font_env \<Rightarrow> pystr \<Rightarrow> pyexc option \<Rightarrow> pystr \<Rightarrow> pystr
    \<Rightarrow> (pystr \<times> pystr) list option \<Rightarrow> pystr option \<Rightarrow> pystr option \<Rightarrow> bool
    \<Rightarrow> pyexc + pdf_op list" where
  "to_pdf u fe now fails text title meta font_regular font_bold minimal =
     (case choose_fonts fe font_regular font_bold of
        (using_core, added, header_font) \<Rightarrow>
          (case fails of
             Some e \<Rightarrow> Inl e
           | None \<Rightarrow>
               Inr (added
                    @ (if minimal then [] else header_ops using_core header_font now title meta)
                    @ [set_font (body_font using_core)]
                    @ map (body_op u using_core) (splitlines text))))"

section \<open>The batch\<close>

text \<open>
  The configuration of one run: the parameters of \<open>process_videos\<close> other than the key
  of the service, the source directory and the progress sink.
\<close>

record config =
  output_dir_str :: pystr
  txt_dir_str :: "pystr option"
  json_dir_str :: "pystr option"
  pdf_dir_str :: "pystr option"
  language :: "pystr option"
  model :: pystr
  smart_format :: bool
  overwrite :: bool
  pdf_minimal :: bool
  font_regular :: "pystr option"
  font_bold :: "pystr option"

type_synonym path = "pystr list"

text \<open>What is handed to the transcription service: the source file or the extracted audio.\<close>

datatype upath = Original pystr | TempWav pystr

text \<open>
  What a destination file holds: the text written to it, \<open>str(response)\<close>, a rendered
  document, or the remains of a write that raised after the file was opened.
\<close>

datatype content =
    TextFile pystr
  | StrOf response
  | PdfFile "pdf_op list"
  | Partial

text \<open>How a \<open>with open(path, "w")\<close> block ends.\<close>

datatype wr = WrOk | WrOpenFails pyexc | WrWriteFails pyexc

text \<open>
  The lines handed to \<open>log_callback\<close>, one constructor for each format string of
  \<open>process_videos\<close>, in the order of the source, with the values it interpolates.
\<close>

datatype msg =
    WarnNoFfmpeg
  | NoFiles
  | Found nat
  | Skipping nat nat pystr
  | Processing nat nat pystr
  | AudioExtracted pystr
  | ExtractFailed pystr
  | TranscribeError pyexc
  | PdfError pyexc
  | Saved pystr pystr pystr
  | Finished

text \<open>
  What the environment does during one iteration of the loop: the exit of the ffmpeg run
  (\<open>None\<close> when it succeeds, \<open>CalledProcessError\<close> when \<open>check=True\<close> sees a non-zero
  exit), the answer of the service for the file handed to it, how the three writes end,
  the fonts, the clock and the PDF library.
\<close>

record behaviour =
  o_extract :: "pyexc option"
  o_transcribe :: "upath \<Rightarrow> pyexc + response"
  o_json_dump :: wr
  o_json_fallback :: wr
  o_txt_write :: wr
  o_fonts :: font_env
  o_now :: pystr
  o_pdf_fails :: "pyexc option"

text \<open>
  The environment of a run: the Unicode tables, whether paths are Windows paths,
  \<open>Path(s).expanduser().resolve()\<close>, how \<open>mkdir(parents=True, exist_ok=True)\<close> ends for
  a directory (\<open>None\<close> when it returns), the entries of the source directory (\<open>None\<close>
  when it does not exist or is no directory), how the construction of the client ends,
  \<open>has_ffmpeg()\<close>, the exception of listing the source directory, if any, the progress
  sink, \<open>str\<close> of a value of the payload (for a float, its \<open>repr\<close>), and the behaviour of
  the environment in each iteration by its index.

  The progress sink is the caller's function. It either returns for every line it is
  handed (\<open>w_sink\<close> is \<open>None\<close>) or raises on every line; a sink that accepts some lines
  and raises on others is not described. A sink that raises does so on the first line
  of the run, which comes before the loop, so the iterations of the loop run under a
  sink that returns.
\<close>

record world =
  w_ucd :: ucd
  w_windows :: bool
  w_resolve :: "pystr \<Rightarrow> path"
  w_mkdir :: "path \<Rightarrow> pyexc option"
  w_in_dir :: "entry list option"
  w_client :: "pyexc option"
  w_has_ffmpeg :: bool
  w_iterdir :: "pyexc option"
  w_sink :: "pyexc option"
  w_str :: "json \<Rightarrow> pystr"
  w_behaviour :: "nat \<Rightarrow> behaviour"

text \<open>
  The state a run changes: the files under the destination directories, the lines
  received by the progress sink, and the files handed to the service so far.
\<close>

record state =
  st_fs :: "path \<rightharpoonup> content"
  st_log :: "msg list"
  st_calls :: "upath list"

definition emit :: "msg \<Rightarrow> state \<Rightarrow> state" where
  "emit m s = s\<lparr>st_log := st_log s @ [m]\<rparr>"

definition exists_file :: "state \<Rightarrow> path \<Rightarrow> bool" where
  "exists_file s p \<longleftrightarrow> st_fs s p \<noteq> None"

definition write_file :: "wr \<Rightarrow> path \<Rightarrow> content \<Rightarrow> state \<Rightarrow> pyexc option \<times> state" where
  "write_file r p c s =
     (case r of
        WrOk \<Rightarrow> (None, s\<lparr>st_fs := (st_fs s)(p \<mapsto> c)\<rparr>)
      | WrOpenFails e \<Rightarrow> (Some e, s)
      | WrWriteFails e \<Rightarrow> (Some e, s\<lparr>st_fs := (st_fs s)(p \<mapsto> Partial)\<rparr>))"

text \<open>
  \<^verbatim>\<open>
  txt_dir = Path(txt_dir_str).expanduser().resolve() if txt_dir_str else (out_dir / 'txt')
  \<close>
  and the same for the two other directories.
\<close>

definition dest_dir :: "world \<Rightarrow> config \<Rightarrow> pystr option \<Rightarrow> string \<Rightarrow> path" where
  "dest_dir w cfg dir_str sub =
     (case dir_str of
        Some d \<Rightarrow> if d \<noteq> [] then w_resolve w d else w_resolve w (output_dir_str cfg) @ [asc sub]
      | None \<Rightarrow> w_resolve w (output_dir_str cfg) @ [asc sub])"

text \<open>
  \<^verbatim>\<open>
  stem = clean_filename(src.stem)
  txt_path = txt_dir / f"{stem}.txt"
  json_path = json_dir / f"{stem}.deepgram.json"
  pdf_path = pdf_dir / f"{stem}.pdf"
  \<close>
\<close>

definition base_name :: "world \<Rightarrow> entry \<Rightarrow> pystr" where
  "base_name w src = clean_filename (w_ucd w) (stem (e_name src))"

definition txt_path :: "world \<Rightarrow> config \<Rightarrow> entry \<Rightarrow> path" where
  "txt_path w cfg src = dest_dir w cfg (txt_dir_str cfg) ''txt'' @ [base_name w src @ asc ''.txt'']"

definition json_path :: "world \<Rightarrow> config \<Rightarrow> entry \<Rightarrow> path" where
  "json_path w cfg src =
     dest_dir w cfg (json_dir_str cfg) ''json'' @ [base_name w src @ asc ''.deepgram.json'']"

definition pdf_path :: "world \<Rightarrow> config \<Rightarrow> entry \<Rightarrow> path" where
  "pdf_path w cfg src = dest_dir w cfg (pdf_dir_str cfg) ''pdf'' @ [base_name w src @ asc ''.pdf'']"

text \<open>
  \<^verbatim>\<open>if not overwrite and txt_path.exists() and pdf_path.exists() and json_path.exists():\<close>
\<close>

definition skip :: "world \<Rightarrow> config \<Rightarrow> entry \<Rightarrow> state \<Rightarrow> bool" where
  "skip w cfg src s \<longleftrightarrow>
     \<not> overwrite cfg \<and> exists_file s (txt_path w cfg src) \<and> exists_file s (pdf_path w cfg src)
     \<and> exists_file s (json_path w cfg src)"

definition is_video :: "world \<Rightarrow> entry \<Rightarrow> bool" where
  "is_video w src \<longleftrightarrow> lower (w_ucd w) (suffix (e_name src)) \<in> set VIDEO_EXTS"

text \<open>
  Preparing the input of the service:
  \<^verbatim>\<open>
  use_path = src
  if is_video and ffmpeg_ok:
      try:
          use_path = extract_audio_with_ffmpeg(src, td_path)
          log_callback(f"  - Audio extraido: {use_path.name}")
      except subprocess.CalledProcessError:
          log_callback(f"  ! Fallo la extraccion ... '{src.name}'. Se enviara el archivo original.")
          use_path = src
  \<close>
  An exception of the ffmpeg run other than \<open>CalledProcessError\<close> is not caught.
\<close>

definition prepare :: "world \<Rightarrow> behaviour \<Rightarrow> entry \<Rightarrow> state \<Rightarrow> pyexc option \<times> upath \<times> state" where
  "prepare w orc src s =
     (if is_video w src \<and> w_has_ffmpeg w then
        (case o_extract orc of
           None \<Rightarrow>
             (None, TempWav (stem (e_name src) @ asc ''.wav''),
              emit (AudioExtracted (stem (e_name src) @ asc ''.wav'')) s)
         | Some e \<Rightarrow>
             if e = CalledProcessError
             then (None, Original (e_name src), emit (ExtractFailed (e_name src)) s)
             else (Some e, Original (e_name src), s))
      else (None, Original (e_name src), s))"

text \<open>The placeholder, with its two accented letters and its line feed as code points.\<close>

definition placeholder :: pystr where
  "placeholder =
     asc ''[Transcripci'' @ [243] @ asc ''n vac'' @ [237] @ asc ''a]'' @ [10]
     @ asc ''(Revisa el archivo .deepgram.json para ver la respuesta completa.)''"

text \<open>
  \<^verbatim>\<open>
  if not transcript_text.strip():
      transcript_text = "[Transcripcion vacia]\n(Revisa el archivo ...)"
  \<close>
  Only a string has \<open>strip\<close>.
\<close>

definition final_text :: "ucd \<Rightarrow> json \<Rightarrow> pyexc + pystr" where
  "final_text u transcript_text =
     (case transcript_text of
        JStr t \<Rightarrow> Inr (if strip u t = [] then placeholder else t)
      | _ \<Rightarrow> Inl AttributeError)"

text \<open>
  The text \<open>json.dump(obj, fp, ensure_ascii=..., indent=...)\<close> of the standard library
  writes, for the values a payload is made of. An integer is written in decimal.
\<close>

fun digits :: "nat \<Rightarrow> pystr" where
  "digits n = (if n < 10 then [48 + n] else digits (n div 10) @ [48 + n mod 10])"

declare digits.simps [simp del]

definition int_repr :: "int \<Rightarrow> pystr" where
  "int_repr i = (if i < 0 then 45 # digits (nat (- i)) else digits (nat i))"

definition hex_digit :: "nat \<Rightarrow> nat" where
  "hex_digit d = (if d < 10 then 48 + d else 87 + d)"

text \<open>The escape \<^verbatim>\<open>'\\u{0:04x}'.format(n)\<close>.\<close>

definition hex4 :: "nat \<Rightarrow> pystr" where
  "hex4 n = [92, 117, hex_digit (n div 4096 mod 16), hex_digit (n div 256 mod 16),
             hex_digit (n div 16 mod 16), hex_digit (n mod 16)]"

text \<open>
  How a character of a string is written: the backslash, the quote and the control
  characters below the space are escaped always; with \<open>ensure_ascii\<close>, so is every
  character above the tilde, one beyond the basic plane as a surrogate pair; every
  other character is written as it is.
\<close>

definition escape_char :: "bool \<Rightarrow> nat \<Rightarrow> pystr" where
  "escape_char ensure_ascii c =
     (if c = 92 then [92, 92]
      else if c = 34 then [92, 34]
      else if c = 8 then [92, 98]
      else if c = 12 then [92, 102]
      else if c = 10 then [92, 110]
      else if c = 13 then [92, 114]
      else if c = 9 then [92, 116]
      else if c < 32 then hex4 c
      else if ensure_ascii \<and> 126 < c then
        (if c < 65536 then hex4 c
         else hex4 (55296 + (c - 65536) div 1024 mod 1024) @ hex4 (56320 + (c - 65536) mod 1024))
      else [c])"

definition encode_basestring :: "bool \<Rightarrow> pystr \<Rightarrow> pystr" where
  "encode_basestring ensure_ascii s = [34] @ concat (map (escape_char ensure_ascii) s) @ [34]"

text \<open>
  With an indent of \<open>k\<close>, every item of a sequence or mapping starts on a line of its
  own after \<open>k\<close> spaces for each level of nesting, and items are separated by a comma;
  without an indent nothing is inserted and items are separated by a comma and a space.
\<close>

definition newline_indent :: "nat option \<Rightarrow> nat \<Rightarrow> pystr" where
  "newline_indent indent level =
     (case indent of None \<Rightarrow> [] | Some k \<Rightarrow> 10 # replicate (k * level) 32)"

definition item_separator :: "nat option \<Rightarrow> pystr" where
  "item_separator indent = (case indent of None \<Rightarrow> [44, 32] | Some k \<Rightarrow> [44])"

fun join :: "pystr \<Rightarrow> pystr list \<Rightarrow> pystr" where
  "join sep [] = []"
| "join sep [x] = x"
| "join sep (x # y # ys) = x @ sep @ join sep (y # ys)"

text \<open>
  The encoder, at a level of nesting. The first argument is \<open>float.__repr__\<close>, which is
  no part of the repository. The items of a mapping are written in its own order.
\<close>

fun iterencode :: "(json \<Rightarrow> pystr) \<Rightarrow> bool \<Rightarrow> nat option \<Rightarrow> nat \<Rightarrow> json \<Rightarrow> pystr" where
  "iterencode fr ea ind level JNull = asc ''null''"
| "iterencode fr ea ind level (JBool b) = (if b then asc ''true'' else asc ''false'')"
| "iterencode fr ea ind level (JInt i) = int_repr i"
| "iterencode fr ea ind level (JFloat m e) = fr (JFloat m e)"
| "iterencode fr ea ind level (JStr s) = encode_basestring ea s"
| "iterencode fr ea ind level (JList xs) =
     (if xs = [] then asc ''[]''
      else asc ''['' @ newline_indent ind (level + 1)
           @ join (item_separator ind @ newline_indent ind (level + 1))
               (map (iterencode fr ea ind (level + 1)) xs)
           @ newline_indent ind level @ asc '']'')"
| "iterencode fr ea ind level (JDict kvs) =
     (if kvs = [] then asc ''{}''
      else asc ''{'' @ newline_indent ind (level + 1)
           @ join (item_separator ind @ newline_indent ind (level + 1))
               (map (\<lambda>(k, v). encode_basestring ea k @ asc '': '' @ iterencode fr ea ind (level + 1) v) kvs)
           @ newline_indent ind level @ asc ''}'')"

definition json_dump :: "(json \<Rightarrow> pystr) \<Rightarrow> bool \<Rightarrow> nat option \<Rightarrow> json \<Rightarrow> pystr" where
  "json_dump fr ensure_ascii indent obj = iterencode fr ensure_ascii indent 0 obj"


text \<open>
  \<^verbatim>\<open>
  try:
      with open(json_path, "w", encoding="utf-8") as fjson:
          json.dump(full_json, fjson, ensure_ascii=False, indent=2)
  except Exception:
      with open(json_path, "w", encoding="utf-8") as fjson:
          fjson.write(str(response))
  \<close>
\<close>

definition write_json :: "world \<Rightarrow> behaviour \<Rightarrow> path \<Rightarrow> json \<Rightarrow> response \<Rightarrow> state
    \<Rightarrow> pyexc option \<times> state" where
  "write_json w orc p full_json response s =
     (case write_file (o_json_dump orc) p (TextFile (json_dump (w_str w) False (Some 2) full_json)) s of
        (None, s1) \<Rightarrow> (None, s1)
      | (Some e, s1) \<Rightarrow> write_file (o_json_fallback orc) p (StrOf response) s1)"

text \<open>
  \<^verbatim>\<open>
  meta = {"info": f"Model={model} | Language={language or 'auto'} | Confidence={
          confidence if confidence is not None else 'n/a'}"}
  \<close>
\<close>

definition meta_info :: "world \<Rightarrow> config \<Rightarrow> json \<Rightarrow> (pystr \<times> pystr) list" where
  "meta_info w cfg confidence =
     [(asc ''info'',
       asc ''Model='' @ model cfg @ asc '' | Language=''
       @ (case language cfg of None \<Rightarrow> asc ''auto'' | Some l \<Rightarrow> if l = [] then asc ''auto'' else l)
       @ asc '' | Confidence=''
       @ (if confidence \<noteq> JNull then w_str w confidence else asc ''n/a''))]"

definition doc_title :: "entry \<Rightarrow> pystr" where
  "doc_title src = asc ''Transcripci'' @ [243] @ asc ''n - '' @ stem (e_name src)"

text \<open>
  \<^verbatim>\<open>
  try:
      to_pdf(transcript_text, pdf_path, title=..., meta=meta, font_regular=font_regular,
             font_bold=font_bold, minimal=pdf_minimal)
  except Exception as e:
      log_callback(f"  ! No se pudo escribir el PDF: {e}")
  \<close>
\<close>

definition render :: "world \<Rightarrow> config \<Rightarrow> behaviour \<Rightarrow> entry \<Rightarrow> pystr \<Rightarrow> json \<Rightarrow> state \<Rightarrow> state" where
  "render w cfg orc src text confidence s =
     (case to_pdf (w_ucd w) (o_fonts orc) (o_now orc) (o_pdf_fails orc) text (doc_title src)
             (Some (meta_info w cfg confidence)) (font_regular cfg) (font_bold cfg)
             (pdf_minimal cfg) of
        Inr doc \<Rightarrow> s\<lparr>st_fs := (st_fs s)(pdf_path w cfg src \<mapsto> PdfFile doc)\<rparr>
      | Inl e \<Rightarrow> emit (PdfError e) s)"

text \<open>
  What follows a successful transcription: extraction, the placeholder, the structured
  payload, the text, the document and the line that reports the three names.
\<close>

definition persist :: "world \<Rightarrow> config \<Rightarrow> behaviour \<Rightarrow> entry \<Rightarrow> response \<Rightarrow> state
    \<Rightarrow> pyexc option \<times> state" where
  "persist w cfg orc src response s =
     (case extract_transcript_from_response response of
        Inl e \<Rightarrow> (Some e, s)
      | Inr (transcript_text, full_json, confidence) \<Rightarrow>
          (case final_text (w_ucd w) transcript_text of
             Inl e \<Rightarrow> (Some e, s)
           | Inr text \<Rightarrow>
               (case write_json w orc (json_path w cfg src) full_json response s of
                  (Some e, s1) \<Rightarrow> (Some e, s1)
                | (None, s1) \<Rightarrow>
                    (case write_file (o_txt_write orc) (txt_path w cfg src) (TextFile text) s1 of
                       (Some e, s2) \<Rightarrow> (Some e, s2)
                     | (None, s2) \<Rightarrow>
                         (None,
                          emit (Saved (last (txt_path w cfg src)) (last (json_path w cfg src))
                                  (last (pdf_path w cfg src)))
                            (render w cfg orc src text confidence s2))))))"

text \<open>
  One iteration of \<open>for idx, src in enumerate(files, start=1)\<close>. The first component of
  the result is the exception that leaves the loop, if any.
\<close>

definition process_file :: "world \<Rightarrow> config \<Rightarrow> nat \<Rightarrow> nat \<Rightarrow> entry \<Rightarrow> state \<Rightarrow> pyexc option \<times> state" where
  "process_file w cfg n idx src s =
     (if skip w cfg src s then (None, emit (Skipping idx n (e_name src)) s)
      else
        (case prepare w (w_behaviour w idx) src (emit (Processing idx n (e_name src)) s) of
           (Some e, use_path, s1) \<Rightarrow> (Some e, s1)
         | (None, use_path, s1) \<Rightarrow>
             (case o_transcribe (w_behaviour w idx) use_path of
                Inl e \<Rightarrow>
                  (None, emit (TranscribeError e) (s1\<lparr>st_calls := st_calls s1 @ [use_path]\<rparr>))
              | Inr response \<Rightarrow>
                  persist w cfg (w_behaviour w idx) src response
                    (s1\<lparr>st_calls := st_calls s1 @ [use_path]\<rparr>))))"

fun process_loop :: "world \<Rightarrow> config \<Rightarrow> nat \<Rightarrow> (nat \<times> entry) list \<Rightarrow> state \<Rightarrow> pyexc option \<times> state" where
  "process_loop w cfg n [] s = (None, s)"
| "process_loop w cfg n ((idx, src) # rest) s =
     (case process_file w cfg n idx src s of
        (Some e, s1) \<Rightarrow> (Some e, s1)
      | (None, s1) \<Rightarrow> process_loop w cfg n rest s1)"

text \<open>
  The four calls of \<open>mkdir(parents=True, exist_ok=True)\<close>, in the order of the source;
  the first that raises ends them.
\<close>

fun mkdirs :: "(path \<Rightarrow> pyexc option) \<Rightarrow> path list \<Rightarrow> pyexc option" where
  "mkdirs mk [] = None"
| "mkdirs mk (d # ds) = (case mk d of Some e \<Rightarrow> Some e | None \<Rightarrow> mkdirs mk ds)"

text \<open>A call of \<open>log_callback\<close> outside the loop: the sink raises, or receives the line.\<close>

definition say :: "world \<Rightarrow> msg \<Rightarrow> state \<Rightarrow> pyexc option \<times> state" where
  "say w m s = (case w_sink w of Some e \<Rightarrow> (Some e, s) | None \<Rightarrow> (None, emit m s))"

text \<open>
  \<^verbatim>\<open>
  out_dir.mkdir(parents=True, exist_ok=True)
  ...
  txt_dir.mkdir(parents=True, exist_ok=True)
  json_dir.mkdir(parents=True, exist_ok=True)
  pdf_dir.mkdir(parents=True, exist_ok=True)
  if not in_dir.exists() or not in_dir.is_dir():
      raise FileNotFoundError(...)
  config = DeepgramClientOptions(verbose=0)
  dg = DeepgramClient(api_key, config)
  ffmpeg_ok = has_ffmpeg()
  if not ffmpeg_ok:
      log_callback("ADVERTENCIA: ...")
  files = sorted([...])
  if not files:
      log_callback("No se encontraron archivos de video o audio compatibles.")
      return
  log_callback(f"Se encontraron {len(files)} archivos. Iniciando transcripcion...\n")
  for idx, src in enumerate(files, start=1):
      ...
  log_callback("Proceso finalizado.")
  \<close>
  None of these steps stands in a \<open>try\<close>: an exception of any of them leaves
  \<open>process_videos\<close>. Directories are no part of the state.
\<close>

definition process_videos :: "world \<Rightarrow> config \<Rightarrow> state \<Rightarrow> pyexc option \<times> state" where
  "process_videos w cfg s =
     (case mkdirs (w_mkdir w)
             [w_resolve w (output_dir_str cfg), dest_dir w cfg (txt_dir_str cfg) ''txt'',
              dest_dir w cfg (json_dir_str cfg) ''json'', dest_dir w cfg (pdf_dir_str cfg) ''pdf''] of
        Some e \<Rightarrow> (Some e, s)
      | None \<Rightarrow>
     (case w_in_dir w of
        None \<Rightarrow> (Some FileNotFoundError, s)
      | Some entries \<Rightarrow>
     (case w_client w of
        Some e \<Rightarrow> (Some e, s)
      | None \<Rightarrow>
     (case (if \<not> w_has_ffmpeg w then say w WarnNoFfmpeg s else (None, s)) of
        (Some e, s1) \<Rightarrow> (Some e, s1)
      | (None, s1) \<Rightarrow>
     (case w_iterdir w of
        Some e \<Rightarrow> (Some e, s1)
      | None \<Rightarrow>
          (let files = discover (w_ucd w) (w_windows w) entries
           in if files = [] then say w NoFiles s1
              else
                (case say w (Found (length files)) s1 of
                   (Some e, s2) \<Rightarrow> (Some e, s2)
                 | (None, s2) \<Rightarrow>
                (case process_loop w cfg (length files) (enumerate 1 files) s2 of
                   (Some e, s3) \<Rightarrow> (Some e, s3)
                 | (None, s3) \<Rightarrow> say w Finished s3))))))))"

section \<open>Vocabulary of the statements\<close>

text \<open>
  The value the extractor searches: what \<open>to_dict()\<close> returns, or the response itself
  when it has no usable \<open>to_dict\<close> but has \<open>keys\<close>; \<open>None\<close> when it is neither.
\<close>

definition data_of :: "response \<Rightarrow> json option" where
  "data_of r =
     (case to_dict r of
        Inr d \<Rightarrow> Some d
      | Inl e \<Rightarrow> if has_keys r then Some (plain_value r) else None)"

text \<open>
  A value lacks the expected shape when \<open>results\<close>, \<open>channels\<close>, its first element,
  \<open>alternatives\<close> and its first element do not lead to a mapping.
\<close>

definition lacks_shape :: "json \<Rightarrow> bool" where
  "lacks_shape data \<longleftrightarrow> (case first_alternative data of Inr (JDict kvs) \<Rightarrow> False | _ \<Rightarrow> True)"



text \<open>The lines a file's own processing adds after the one that names it.\<close>

fun detail :: "msg \<Rightarrow> bool" where
  "detail (AudioExtracted a) = True"
| "detail (ExtractFailed a) = True"
| "detail (TranscribeError e) = True"
| "detail (PdfError e) = True"
| "detail (Saved a b c) = True"
| "detail m = False"

section \<open>Concrete inputs\<close>

text \<open>Unicode tables that know no letter, digit or space beyond ASCII and lower-case nothing there.\<close>

definition ascii_ucd :: ucd where
  "ascii_ucd = \<lparr>ucd_alnum = (\<lambda>c. False), ucd_space = (\<lambda>c. False), ucd_lower = (\<lambda>c. [c])\<rparr>"

definition no_channels :: json where
  "no_channels = JDict [(asc ''results'', JDict [(asc ''channels'', JList [])])]"

text \<open>
  A small environment: POSIX paths, directories that can be created, a client that can
  be constructed, a source directory that can be listed, a sink that returns, no
  Unicode font anywhere, a clock that stands still, a service that answers every file
  with one short transcript, and writes that succeed.
\<close>

definition no_fonts :: font_env where
  "no_fonts = \<lparr>fe_exists = (\<lambda>p. False), fe_win_fonts = False, fe_add_font_ok = (\<lambda>p. False)\<rparr>"

definition hola_payload :: json where
  "hola_payload = JDict [(asc ''results'', JDict [(asc ''channels'',
            JList [JDict [(asc ''alternatives'',
              JList [JDict [(asc ''transcript'', JStr (asc ''hola'')),
                            (asc ''confidence'', JInt 1)]])]])])]"

definition hola :: response where
  "hola = SdkResponse hola_payload"

definition all_ok :: behaviour where
  "all_ok = \<lparr>o_extract = None, o_transcribe = (\<lambda>p. Inr hola), o_json_dump = WrOk,
              o_json_fallback = WrOk, o_txt_write = WrOk, o_fonts = no_fonts,
              o_now = asc ''2024-01-01 00:00:00'', o_pdf_fails = None\<rparr>"

definition service_down :: behaviour where
  "service_down = all_ok\<lparr>o_transcribe := (\<lambda>p. Inl (ServiceError (asc ''down'')))\<rparr>"

definition demo_world :: "entry list \<Rightarrow> (nat \<Rightarrow> behaviour) \<Rightarrow> world" where
  "demo_world es b =
     \<lparr>w_ucd = ascii_ucd, w_windows = False, w_resolve = (\<lambda>d. [d]), w_mkdir = (\<lambda>d. None),
      w_in_dir = Some es, w_client = None, w_has_ffmpeg = True, w_iterdir = None,
      w_sink = None, w_str = (\<lambda>j. asc ''1''), w_behaviour = b\<rparr>"

definition demo_cfg :: config where
  "demo_cfg =
     \<lparr>output_dir_str = asc ''out'', txt_dir_str = None, json_dir_str = None, pdf_dir_str = None,
      language = Some (asc ''es''), model = asc ''nova-3'', smart_format = True,
      overwrite = False, pdf_minimal = False, font_regular = None, font_bold = None\<rparr>"

definition empty_state :: state where
  "empty_state = \<lparr>st_fs = Map.empty, st_log = [], st_calls = []\<rparr>"

definition a_file :: "string \<Rightarrow> entry" where
  "a_file name = \<lparr>e_name = asc name, e_is_file = True\<rparr>"










definition one_audio :: "entry list" where
  "one_audio = [a_file ''a.wav'']"

text \<open>
  The files one iteration writes when it ends without an exception, the document apart.
\<close>

definition written :: "world \<Rightarrow> config \<Rightarrow> behaviour \<Rightarrow> entry \<Rightarrow> response \<Rightarrow> json \<Rightarrow> pystr
    \<Rightarrow> (path \<rightharpoonup> content) \<Rightarrow> path \<rightharpoonup> content" where
  "written w cfg orc src response full_json tx fs =
     fs(json_path w cfg src \<mapsto>
          (if o_json_dump orc = WrOk then TextFile (json_dump (w_str w) False (Some 2) full_json)
           else StrOf response),
        txt_path w cfg src \<mapsto> TextFile tx)"

text \<open>A transcript of whitespace, a directory of one video, and an ffmpeg that exits non-zero.\<close>

definition blank_payload :: json where
  "blank_payload = JDict [(asc ''results'', JDict [(asc ''channels'',
            JList [JDict [(asc ''alternatives'',
              JList [JDict [(asc ''transcript'', JStr [32, 10, 9])]])]])])]"

definition blank_service :: behaviour where
  "blank_service = all_ok\<lparr>o_transcribe := (\<lambda>p. Inr (SdkResponse blank_payload))\<rparr>"

definition one_video :: "entry list" where
  "one_video = [a_file ''clip.mp4'']"

definition ffmpeg_fails :: behaviour where
  "ffmpeg_fails = all_ok\<lparr>o_extract := Some CalledProcessError\<rparr>"

text \<open>The texts a document holds, in the order they were written.\<close>

fun op_text :: "pdf_op \<Rightarrow> pystr list" where
  "op_text (Cell w h t) = [t]"
| "op_text (MultiCell w h t) = [t]"
| "op_text x = []"

definition texts_written :: "pdf_op list \<Rightarrow> pystr list" where
  "texts_written doc = concat (map op_text doc)"

text \<open>The title with its em and en dashes replaced, as the header block of the source does first.\<close>

definition hyphenate :: "pystr \<Rightarrow> pystr" where
  "hyphenate t = replace_char 8211 [45] (replace_char 8212 [45] t)"

definition info_of :: "(pystr \<times> pystr) list option \<Rightarrow> pystr option" where
  "info_of meta = (case meta of None \<Rightarrow> None | Some m \<Rightarrow> map_of m (asc ''info''))"

text \<open>One Unicode font beside the script, and a text with a blank line and a euro sign.\<close>

definition dejavu :: font_env where
  "dejavu = \<lparr>fe_exists = (\<lambda>p. p = LocalFont (asc ''DejaVuSans.ttf'')), fe_win_fonts = False,
             fe_add_font_ok = (\<lambda>p. True)\<rparr>"

definition sample_body :: pystr where
  "sample_body = asc ''hola'' @ [10, 32, 10, 8364]"

definition sample_meta :: "(pystr \<times> pystr) list option" where
  "sample_meta = Some [(asc ''info'', [8220, 120])]"

text \<open>A source file is complete when its three destination files exist.\<close>

definition complete :: "world \<Rightarrow> config \<Rightarrow> entry \<Rightarrow> state \<Rightarrow> bool" where
  "complete w cfg src s \<longleftrightarrow>
     exists_file s (txt_path w cfg src) \<and> exists_file s (pdf_path w cfg src)
     \<and> exists_file s (json_path w cfg src)"

text \<open>The lines of a loop that skips every file.\<close>

definition skipping_lines :: "nat \<Rightarrow> (nat \<times> entry) list \<Rightarrow> msg list" where
  "skipping_lines n files = map (\<lambda>(i, e). Skipping i n (e_name e)) files"

text \<open>A response whose extracted transcript is a string.\<close>

definition string_transcript :: "response \<Rightarrow> bool" where
  "string_transcript r \<longleftrightarrow>
     (case extract_transcript_from_response r of Inr (JStr t, fj, conf) \<Rightarrow> True | _ \<Rightarrow> False)"

text \<open>
  An iteration is confined when the environment does nothing that the loop body leaves
  uncaught: the ffmpeg run succeeds or exits non-zero, the text write succeeds, one of
  the two payload writes succeeds, and every transcript the service returns is a string.
\<close>

definition confined :: "behaviour \<Rightarrow> bool" where
  "confined orc \<longleftrightarrow>
     (o_extract orc = None \<or> o_extract orc = Some CalledProcessError)
     \<and> o_txt_write orc = WrOk
     \<and> (o_json_dump orc = WrOk \<or> o_json_fallback orc = WrOk)
     \<and> (\<forall>p r. o_transcribe orc p = Inr r \<longrightarrow> string_transcript r)"

text \<open>
  An iteration is dependable when, moreover, the service answers whatever it is handed
  and the PDF library does not raise.
\<close>

definition dependable :: "behaviour \<Rightarrow> bool" where
  "dependable orc \<longleftrightarrow>
     confined orc \<and> o_pdf_fails orc = None \<and> (\<forall>p. \<exists>r. o_transcribe orc p = Inr r)"

text \<open>
  Two videos whose names differ in a space and an underscore, a configuration that
  overwrites, and a service that answers the first file with a word and the others with
  whitespace.
\<close>

definition twins :: "entry list" where
  "twins = [a_file ''a_b.mp4'', a_file ''a b.mp4'']"

definition overwriting :: config where
  "overwriting = demo_cfg\<lparr>overwrite := True\<rparr>"

definition hola_then_blank :: "nat \<Rightarrow> behaviour" where
  "hola_then_blank i = (if i = 1 then all_ok else blank_service)"






text \<open>A state in which every path holds an old text.\<close>

definition stale_state :: state where
  "stale_state = \<lparr>st_fs = (\<lambda>p. Some (TextFile (asc ''old''))), st_log = [], st_calls = []\<rparr>"


text \<open>
  A run is set up when the four destination directories can be created, the client can
  be constructed, the source directory can be listed and the progress sink returns.
\<close>

definition set_up :: "world \<Rightarrow> config \<Rightarrow> bool" where
  "set_up w cfg \<longleftrightarrow>
     mkdirs (w_mkdir w)
       [w_resolve w (output_dir_str cfg), dest_dir w cfg (txt_dir_str cfg) ''txt'',
        dest_dir w cfg (json_dir_str cfg) ''json'', dest_dir w cfg (pdf_dir_str cfg) ''pdf''] = None
     \<and> w_client w = None \<and> w_iterdir w = None \<and> w_sink w = None"



section \<open>Properties of the base name\<close>

lemma set_strip_subset: "set (strip u s) \<subseteq> set s"
proof -
  have "set (strip u s) = set (dropWhile (isspace u) (rev (dropWhile (isspace u) s)))"
    by (simp add: strip_def)
  also have "\<dots> \<subseteq> set (rev (dropWhile (isspace u) s))"
    by (rule set_dropWhileD [THEN subsetI]) assumption
  also have "\<dots> \<subseteq> set s"
    using set_dropWhileD by fastforce
  finally show ?thesis .
qed

lemma asc_underscore: "asc ''_'' = [95]"
  by (simp add: asc_def)

lemma asc_allowed_punct: "set (asc '' -_.'') = {32, 45, 95, 46}"
  by (simp add: asc_def)

lemma replace_char_single: "replace_char k [v] s = map (\<lambda>c. if c = k then v else c) s"
  by (induction s) (auto simp: replace_char_def)

lemma set_strip_filter: "set (strip u (filter P s)) \<subseteq> {c \<in> set s. P c}"
  using set_strip_subset[of u "filter P s"] by auto

lemma last_dropWhile_nonempty: "dropWhile P xs \<noteq> [] \<Longrightarrow> last (dropWhile P xs) = last xs"
  by (induction xs) (auto split: if_splits)

lemma strip_ends:
  assumes "strip u s \<noteq> []"
  shows "\<not> isspace u (hd (strip u s)) \<and> \<not> isspace u (last (strip u s))"
proof -
  let ?t = "dropWhile (isspace u) s"
  let ?r = "dropWhile (isspace u) (rev ?t)"
  from assms have r: "?r \<noteq> []" by (simp add: strip_def)
  have t: "?t \<noteq> []"
  proof
    assume "?t = []"
    then have "?r = []" by (simp del: dropWhile_eq_Nil_conv)
    with r show False by contradiction
  qed
  have "last (strip u s) = hd ?r"
    using r by (simp add: strip_def last_rev)
  moreover have "\<not> isspace u (hd ?r)"
    using r hd_dropWhile by blast
  moreover have "hd (strip u s) = last ?r"
    using r by (simp add: strip_def hd_rev)
  moreover have "last ?r = hd ?t"
    using r t by (simp add: last_dropWhile_nonempty last_rev)
  moreover have "\<not> isspace u (hd ?t)"
    using t hd_dropWhile by blast
  ultimately show ?thesis by simp
qed

lemma isspace_32: "isspace u 32"
  by (simp add: isspace_def)

lemma clean_filename_map:
  "clean_filename u name = map (\<lambda>c. if c = 32 then 95 else c) (strip u (filter (allowed_char u) name))"
  by (simp add: clean_filename_def Let_def asc_underscore replace_char_single)

text \<open>
  Claim C5. For every file name, the base name derived by \<open>clean_filename\<close> holds only
  letters, digits, hyphens, underscores and dots. It is the name with every character
  outside letters, digits, space, hyphen, underscore and dot removed, then stripped of
  leading and trailing whitespace, then with each remaining space turned into one
  underscore; so it holds no space and neither begins nor ends with whitespace.
\<close>

theorem clean_filename_charset:
  "(\<forall>c \<in> set (clean_filename u name). isalnum u c \<or> c \<in> {45, 95, 46})
   \<and> 32 \<notin> set (clean_filename u name)
   \<and> clean_filename u name
       = map (\<lambda>c. if c = 32 then 95 else c) (strip u (filter (allowed_char u) name))
   \<and> (clean_filename u name \<noteq> [] \<longrightarrow>
        \<not> isspace u (hd (clean_filename u name)) \<and> \<not> isspace u (last (clean_filename u name)))"
proof -
  let ?t = "strip u (filter (allowed_char u) name)"
  have chars: "\<forall>c \<in> set (clean_filename u name). isalnum u c \<or> c \<in> {45, 95, 46}"
    using set_strip_filter[of u "allowed_char u" name]
    by (auto simp: clean_filename_map allowed_char_def asc_allowed_punct)
  have nospace: "32 \<notin> set (clean_filename u name)"
    by (auto simp: clean_filename_map)
  have ends: "\<not> isspace u (hd (clean_filename u name)) \<and> \<not> isspace u (last (clean_filename u name))"
    if ne: "clean_filename u name \<noteq> []"
  proof -
    from ne have t: "?t \<noteq> []" by (simp add: clean_filename_map)
    from strip_ends[OF t] have h: "\<not> isspace u (hd ?t)" and l: "\<not> isspace u (last ?t)"
      by simp_all
    from h isspace_32[of u] have h32: "hd ?t \<noteq> 32" by metis
    from l isspace_32[of u] have l32: "last ?t \<noteq> 32" by metis
    show ?thesis
      using t h l h32 l32 by (simp add: clean_filename_map hd_map last_map)
  qed
  from chars nospace ends show ?thesis
    by (simp add: clean_filename_map)
qed

theorem clean_filename_charset_witness:
  "list_all (\<lambda>c. isalnum ascii_ucd c \<or> c \<in> {45, 95, 46}) (clean_filename ascii_ucd (asc '' a b!.x ''))
   \<and> clean_filename ascii_ucd (asc '' a b!.x '') = asc ''a_b.x''
   \<and> clean_filename ascii_ucd (asc '' a b!.x '') \<noteq> []
   \<and> \<not> isspace ascii_ucd (hd (clean_filename ascii_ucd (asc '' a b!.x '')))
   \<and> \<not> isspace ascii_ucd (last (clean_filename ascii_ucd (asc '' a b!.x '')))"
  using clean_filename_charset [of ascii_ucd "asc '' a b!.x ''"]
  by (simp add: clean_filename_def Let_def asc_def allowed_char_def isalnum_def isspace_def
      strip_def replace_char_def ascii_ucd_def)

section \<open>Properties of the extractor\<close>

lemma read_alternative_lacks: "lacks_shape d \<Longrightarrow> \<exists>e. read_alternative d = Inl e"
  by (auto simp: lacks_shape_def read_alternative_def bind_exc_def split: sum.splits json.splits)

lemma extract_data:
  "data_of r = Some d \<Longrightarrow>
   extract_transcript_from_response r =
     (case read_alternative d of
        Inr (transcript, confidence) \<Rightarrow> Inr (transcript, d, confidence)
      | Inl e \<Rightarrow> Inr (JStr [], d, JNull))"
  by (auto simp: data_of_def extract_transcript_from_response_def split: sum.splits if_splits)

lemma extract_no_data:
  "data_of r = None \<Longrightarrow>
   extract_transcript_from_response r = Inr (JStr could_not_process, JDict [], JNull)"
  by (auto simp: data_of_def extract_transcript_from_response_def split: sum.splits if_splits)

text \<open>
  Claim C3, amended. For every response, the extractor returns and does not raise. When
  the response yields a value to search (through \<open>to_dict()\<close>, or by being a mapping
  itself) and that value lacks the expected nested shape, the transcript is the empty
  string, the payload is that value and there is no confidence. When the response yields
  no value to search, the transcript is the fixed marker
  \<open>[Error: Could not process response object]\<close> and the payload is empty.
\<close>

theorem extract_never_raises:
  "(\<exists>t d c. extract_transcript_from_response r = Inr (t, d, c))
   \<and> (\<forall>d. data_of r = Some d \<and> lacks_shape d \<longrightarrow>
         extract_transcript_from_response r = Inr (JStr [], d, JNull))
   \<and> (data_of r = None \<longrightarrow>
         extract_transcript_from_response r = Inr (JStr could_not_process, JDict [], JNull))"
proof (intro conjI allI impI)
  show "\<exists>t d c. extract_transcript_from_response r = Inr (t, d, c)"
  proof (cases "data_of r")
    case None
    then show ?thesis by (simp add: extract_no_data)
  next
    case (Some d)
    then show ?thesis by (cases "read_alternative d") (auto simp: extract_data)
  qed
next
  fix d assume "data_of r = Some d \<and> lacks_shape d"
  then show "extract_transcript_from_response r = Inr (JStr [], d, JNull)"
    using read_alternative_lacks[of d] by (auto simp: extract_data)
next
  assume "data_of r = None"
  then show "extract_transcript_from_response r = Inr (JStr could_not_process, JDict [], JNull)"
    by (rule extract_no_data)
qed

theorem extract_never_raises_witness:
  "data_of (SdkResponse no_channels) = Some no_channels
   \<and> lacks_shape no_channels
   \<and> extract_transcript_from_response (SdkResponse no_channels) = Inr (JStr [], no_channels, JNull)
   \<and> data_of (Plain JNull) = None
   \<and> extract_transcript_from_response (Plain JNull) = Inr (JStr could_not_process, JDict [], JNull)"
proof -
  have a: "data_of (SdkResponse no_channels) = Some no_channels"
    by (simp add: data_of_def)
  have b: "lacks_shape no_channels"
    by (simp add: lacks_shape_def no_channels_def first_alternative_def bind_exc_def asc_def)
  have c: "data_of (Plain JNull) = None"
    by (simp add: data_of_def)
  show ?thesis
    using a b c extract_never_raises [of "SdkResponse no_channels"]
      extract_never_raises [of "Plain JNull"]
    by simp
qed

text \<open>
  Claim C3 as stated fails: \<open>None\<close> has none of the expected shape, and the transcript
  returned for it is the marker, not the empty string.
\<close>

theorem extract_marker_counterexample:
  "lacks_shape (plain_value (Plain JNull))
   \<and> extract_transcript_from_response (Plain JNull) = Inr (JStr could_not_process, JDict [], JNull)
   \<and> could_not_process \<noteq> []"
  by (simp add: lacks_shape_def first_alternative_def bind_exc_def
      extract_transcript_from_response_def could_not_process_def asc_def)

section \<open>The progress log of a run\<close>

lemma st_log_emit: "st_log (emit m s) = st_log s @ [m]"
  by (simp add: emit_def)

lemma st_fs_emit: "st_fs (emit m s) = st_fs s"
  by (simp add: emit_def)

lemma st_calls_emit: "st_calls (emit m s) = st_calls s"
  by (simp add: emit_def)

lemma st_log_write_file: "st_log (snd (write_file r p c s)) = st_log s"
  by (cases r) (simp_all add: write_file_def)

lemma st_calls_write_file: "st_calls (snd (write_file r p c s)) = st_calls s"
  by (cases r) (simp_all add: write_file_def)

lemma st_log_write_json: "st_log (snd (write_json w orc p j r s)) = st_log s"
proof (cases "write_file (o_json_dump orc) p (TextFile (json_dump (w_str w) False (Some 2) j)) s")
  case (Pair a s1)
  with st_log_write_file[of "o_json_dump orc" p "TextFile (json_dump (w_str w) False (Some 2) j)" s] have l: "st_log s1 = st_log s" by simp
  show ?thesis
    using Pair l st_log_write_file[of "o_json_fallback orc" p "StrOf r" s1]
    by (cases a) (simp_all add: write_json_def)
qed

lemma st_calls_write_json: "st_calls (snd (write_json w orc p j r s)) = st_calls s"
proof (cases "write_file (o_json_dump orc) p (TextFile (json_dump (w_str w) False (Some 2) j)) s")
  case (Pair a s1)
  with st_calls_write_file[of "o_json_dump orc" p "TextFile (json_dump (w_str w) False (Some 2) j)" s] have l: "st_calls s1 = st_calls s" by simp
  show ?thesis
    using Pair l st_calls_write_file[of "o_json_fallback orc" p "StrOf r" s1]
    by (cases a) (simp_all add: write_json_def)
qed

lemma render_log:
  "\<exists>ms. st_log (render w cfg orc src tx conf s) = st_log s @ ms \<and> list_all detail ms"
  by (auto simp: render_def st_log_emit split: sum.splits)

lemma st_calls_render: "st_calls (render w cfg orc src tx conf s) = st_calls s"
  by (auto simp: render_def st_calls_emit split: sum.splits)

lemma persist_log:
  "\<exists>ms. st_log (snd (persist w cfg orc src response s)) = st_log s @ ms \<and> list_all detail ms"
proof (cases "extract_transcript_from_response response")
  case (Inl e)
  then show ?thesis by (simp add: persist_def)
next
  case (Inr res)
  obtain tt fj conf where res: "res = (tt, fj, conf)" by (cases res)
  show ?thesis
  proof (cases "final_text (w_ucd w) tt")
    case (Inl e)
    with Inr res show ?thesis by (simp add: persist_def)
  next
    case ft: (Inr tx)
    obtain a s1 where wj: "write_json w orc (json_path w cfg src) fj response s = (a, s1)"
      by (cases "write_json w orc (json_path w cfg src) fj response s")
    with st_log_write_json[of w orc "json_path w cfg src" fj response s]
    have l1: "st_log s1 = st_log s" by simp
    obtain b s2 where wt: "write_file (o_txt_write orc) (txt_path w cfg src) (TextFile tx) s1 = (b, s2)"
      by (cases "write_file (o_txt_write orc) (txt_path w cfg src) (TextFile tx) s1")
    with st_log_write_file[of "o_txt_write orc" "txt_path w cfg src" "TextFile tx" s1]
    have l2: "st_log s2 = st_log s1" by simp
    from render_log[of w cfg orc src tx conf s2]
    obtain ms where ms: "st_log (render w cfg orc src tx conf s2) = st_log s2 @ ms" "list_all detail ms"
      by blast
    show ?thesis
      using Inr res ft wj wt l1 l2 ms
      by (cases a; cases b) (simp_all add: persist_def st_log_emit)
  qed
qed

lemma prepare_log:
  "prepare w orc src s = (r, up, s1) \<Longrightarrow> \<exists>ms. st_log s1 = st_log s @ ms \<and> list_all detail ms"
  by (auto simp: prepare_def st_log_emit split: if_splits option.splits)











lemma process_videos_set_up:
  assumes "set_up w cfg" and "w_in_dir w = Some es"
  shows "process_videos w cfg s =
     (let s1 = (if \<not> w_has_ffmpeg w then emit WarnNoFfmpeg s else s);
          files = discover (w_ucd w) (w_windows w) es
      in if files = [] then (None, emit NoFiles s1)
         else
           (case process_loop w cfg (length files) (enumerate 1 files)
                   (emit (Found (length files)) s1) of
              (Some e, s2) \<Rightarrow> (Some e, s2)
            | (None, s2) \<Rightarrow> (None, emit Finished s2)))"
  using assms
  by (simp add: process_videos_def set_up_def say_def Let_def split: prod.splits option.splits)



section \<open>Discovery\<close>





section \<open>The files of one source file\<close>

lemma asc_ext_distinct:
  "asc ''.txt'' \<noteq> asc ''.pdf''" "asc ''.txt'' \<noteq> asc ''.deepgram.json''"
  "asc ''.deepgram.json'' \<noteq> asc ''.pdf''"
  by (simp_all add: asc_def)

lemma txt_path_neq_json: "txt_path w cfg src \<noteq> json_path w cfg src"
proof
  assume "txt_path w cfg src = json_path w cfg src"
  then have "last (txt_path w cfg src) = last (json_path w cfg src)" by simp
  then show False by (simp add: txt_path_def json_path_def asc_ext_distinct)
qed

lemma txt_path_neq_pdf: "txt_path w cfg src \<noteq> pdf_path w cfg src"
proof
  assume "txt_path w cfg src = pdf_path w cfg src"
  then have "last (txt_path w cfg src) = last (pdf_path w cfg src)" by simp
  then show False by (simp add: txt_path_def pdf_path_def asc_ext_distinct)
qed

lemma json_path_neq_pdf: "json_path w cfg src \<noteq> pdf_path w cfg src"
proof
  assume "json_path w cfg src = pdf_path w cfg src"
  then have "last (json_path w cfg src) = last (pdf_path w cfg src)" by simp
  then show False by (simp add: json_path_def pdf_path_def asc_ext_distinct)
qed

lemma st_fs_write_file:
  "st_fs (snd (write_file r p c s)) q =
     (if q = p then (case r of WrOk \<Rightarrow> Some c | WrOpenFails e \<Rightarrow> st_fs s p | WrWriteFails e \<Rightarrow> Some Partial)
      else st_fs s q)"
  by (cases r) (simp_all add: write_file_def)

lemma fst_write_file:
  "fst (write_file r p c s) = (case r of WrOk \<Rightarrow> None | WrOpenFails e \<Rightarrow> Some e | WrWriteFails e \<Rightarrow> Some e)"
  by (cases r) (simp_all add: write_file_def)

lemma write_json_cases:
  "write_json w orc p j r s =
     (if o_json_dump orc = WrOk then write_file WrOk p (TextFile (json_dump (w_str w) False (Some 2) j)) s
      else write_file (o_json_fallback orc) p (StrOf r) (snd (write_file (o_json_dump orc) p (TextFile (json_dump (w_str w) False (Some 2) j)) s)))"
  by (cases "o_json_dump orc") (simp_all add: write_json_def write_file_def)

lemma st_fs_write_json_other: "q \<noteq> p \<Longrightarrow> st_fs (snd (write_json w orc p j r s)) q = st_fs s q"
  by (simp add: write_json_cases st_fs_write_file)

lemma st_fs_render:
  "st_fs (render w cfg orc src tx conf s) q =
     (case to_pdf (w_ucd w) (o_fonts orc) (o_now orc) (o_pdf_fails orc) tx (doc_title src)
             (Some (meta_info w cfg conf)) (font_regular cfg) (font_bold cfg) (pdf_minimal cfg) of
        Inr doc \<Rightarrow> if q = pdf_path w cfg src then Some (PdfFile doc) else st_fs s q
      | Inl e \<Rightarrow> st_fs s q)"
  by (simp add: render_def st_fs_emit split: sum.splits)

lemma persist_unfold:
  assumes "extract_transcript_from_response response = Inr (tt, fj, conf)"
    and "final_text (w_ucd w) tt = Inr tx"
  shows "persist w cfg orc src response s =
     (case write_json w orc (json_path w cfg src) fj response s of
        (Some e, s1) \<Rightarrow> (Some e, s1)
      | (None, s1) \<Rightarrow>
          (case write_file (o_txt_write orc) (txt_path w cfg src) (TextFile tx) s1 of
             (Some e, s2) \<Rightarrow> (Some e, s2)
           | (None, s2) \<Rightarrow>
               (None,
                emit (Saved (last (txt_path w cfg src)) (last (json_path w cfg src))
                        (last (pdf_path w cfg src)))
                  (render w cfg orc src tx conf s2))))"
  using assms by (simp add: persist_def)


lemma persist_fst_json:
  assumes "extract_transcript_from_response response = Inr (tt, fj, conf)"
    and "final_text (w_ucd w) tt = Inr tx"
    and "fst (write_json w orc (json_path w cfg src) fj response s) = Some e"
  shows "fst (persist w cfg orc src response s) = Some e"
proof -
  obtain a s1 where wj: "write_json w orc (json_path w cfg src) fj response s = (a, s1)"
    by (cases "write_json w orc (json_path w cfg src) fj response s")
  with assms(3) have "a = Some e" by simp
  then show ?thesis
    unfolding persist_unfold[OF assms(1,2)] wj by simp
qed

lemma st_calls_persist: "st_calls (snd (persist w cfg orc src response s)) = st_calls s"
proof (cases "extract_transcript_from_response response")
  case (Inl e)
  then show ?thesis by (simp add: persist_def)
next
  case (Inr res)
  obtain tt fj conf where res: "res = (tt, fj, conf)" by (cases res)
  show ?thesis
  proof (cases "final_text (w_ucd w) tt")
    case (Inl e)
    with Inr res show ?thesis by (simp add: persist_def)
  next
    case ft: (Inr tx)
    obtain a s1 where wj: "write_json w orc (json_path w cfg src) fj response s = (a, s1)"
      by (cases "write_json w orc (json_path w cfg src) fj response s")
    with st_calls_write_json[of w orc "json_path w cfg src" fj response s]
    have l1: "st_calls s1 = st_calls s" by simp
    obtain b s2 where wt: "write_file (o_txt_write orc) (txt_path w cfg src) (TextFile tx) s1 = (b, s2)"
      by (cases "write_file (o_txt_write orc) (txt_path w cfg src) (TextFile tx) s1")
    with st_calls_write_file[of "o_txt_write orc" "txt_path w cfg src" "TextFile tx" s1]
    have l2: "st_calls s2 = st_calls s1" by simp
    show ?thesis
      using Inr res ft wj wt l1 l2
      by (cases a; cases b) (simp_all add: persist_def st_calls_emit st_calls_render)
  qed
qed








lemma escape_char_kept: "128 \<le> c \<Longrightarrow> escape_char False c = [c]"
  by (simp add: escape_char_def)

















lemma write_file_None:
  "write_file r p c s = (None, s2) \<Longrightarrow> r = WrOk \<and> s2 = s\<lparr>st_fs := (st_fs s)(p \<mapsto> c)\<rparr>"
  by (cases r) (simp_all add: write_file_def)

lemma write_json_None:
  assumes "write_json w orc p j r s = (None, s1)"
  shows "st_fs s1 = (st_fs s)(p \<mapsto> (if o_json_dump orc = WrOk then TextFile (json_dump (w_str w) False (Some 2) j) else StrOf r))
       \<and> st_log s1 = st_log s \<and> st_calls s1 = st_calls s
       \<and> (o_json_dump orc = WrOk \<or> o_json_fallback orc = WrOk)"
proof (cases "o_json_dump orc = WrOk")
  case True
  with assms show ?thesis by (auto simp: write_json_cases write_file_def)
next
  case False
  let ?s0 = "snd (write_file (o_json_dump orc) p (TextFile (json_dump (w_str w) False (Some 2) j)) s)"
  from False assms have wf: "write_file (o_json_fallback orc) p (StrOf r) ?s0 = (None, s1)"
    by (simp add: write_json_cases)
  from write_file_None[OF wf] have ok: "o_json_fallback orc = WrOk"
    and s1: "s1 = ?s0\<lparr>st_fs := (st_fs ?s0)(p \<mapsto> StrOf r)\<rparr>" by simp_all
  have fs: "(st_fs ?s0)(p \<mapsto> StrOf r) = (st_fs s)(p \<mapsto> StrOf r)"
    by (rule ext) (simp add: st_fs_write_file)
  show ?thesis
    using False ok s1 fs by (simp add: st_log_write_file st_calls_write_file)
qed

lemma persist_success:
  assumes ex: "extract_transcript_from_response response = Inr (tt, fj, conf)"
    and ft: "final_text (w_ucd w) tt = Inr tx"
    and ok: "persist w cfg orc src response s = (None, s')"
  shows "st_fs s' =
           (case to_pdf (w_ucd w) (o_fonts orc) (o_now orc) (o_pdf_fails orc) tx (doc_title src)
                   (Some (meta_info w cfg conf)) (font_regular cfg) (font_bold cfg) (pdf_minimal cfg) of
              Inr doc \<Rightarrow> (written w cfg orc src response fj tx (st_fs s))(pdf_path w cfg src \<mapsto> PdfFile doc)
            | Inl e \<Rightarrow> written w cfg orc src response fj tx (st_fs s))"
    and "o_txt_write orc = WrOk"
    and "o_json_dump orc = WrOk \<or> o_json_fallback orc = WrOk"
proof -
  obtain a s1 where wj: "write_json w orc (json_path w cfg src) fj response s = (a, s1)"
    by (cases "write_json w orc (json_path w cfg src) fj response s")
  obtain b s2 where wt: "write_file (o_txt_write orc) (txt_path w cfg src) (TextFile tx) s1 = (b, s2)"
    by (cases "write_file (o_txt_write orc) (txt_path w cfg src) (TextFile tx) s1")
  from ok have a: "a = None"
    unfolding persist_unfold[OF ex ft] wj by (cases a) simp_all
  from ok a have b: "b = None"
    unfolding persist_unfold[OF ex ft] wj by (cases b) (simp_all add: wt)
  from ok a b have s': "s' = emit (Saved (last (txt_path w cfg src)) (last (json_path w cfg src))
                        (last (pdf_path w cfg src))) (render w cfg orc src tx conf s2)"
    unfolding persist_unfold[OF ex ft] wj by (simp add: wt)
  from write_json_None[OF wj[unfolded a]]
  have fs1: "st_fs s1 = (st_fs s)(json_path w cfg src \<mapsto>
                (if o_json_dump orc = WrOk then TextFile (json_dump (w_str w) False (Some 2) fj) else StrOf response))"
    and j: "o_json_dump orc = WrOk \<or> o_json_fallback orc = WrOk" by simp_all
  from write_file_None[OF wt[unfolded b]]
  have t: "o_txt_write orc = WrOk" and fs2: "st_fs s2 = (st_fs s1)(txt_path w cfg src \<mapsto> TextFile tx)"
    by simp_all
  have fs2': "st_fs s2 = written w cfg orc src response fj tx (st_fs s)"
    using fs1 fs2 by (simp add: written_def)
  show "o_txt_write orc = WrOk" by (rule t)
  show "o_json_dump orc = WrOk \<or> o_json_fallback orc = WrOk" by (rule j)
  show "st_fs s' =
           (case to_pdf (w_ucd w) (o_fonts orc) (o_now orc) (o_pdf_fails orc) tx (doc_title src)
                   (Some (meta_info w cfg conf)) (font_regular cfg) (font_bold cfg) (pdf_minimal cfg) of
              Inr doc \<Rightarrow> (written w cfg orc src response fj tx (st_fs s))(pdf_path w cfg src \<mapsto> PdfFile doc)
            | Inl e \<Rightarrow> written w cfg orc src response fj tx (st_fs s))"
    unfolding s' by (simp add: st_fs_emit render_def fs2' split: sum.splits)
qed

lemma written_txt: "written w cfg orc src response fj tx fs (txt_path w cfg src) = Some (TextFile tx)"
  by (simp add: written_def)

lemma persist_returns:
  assumes ex: "extract_transcript_from_response response = Inr (tt, fj, conf)"
    and ft: "final_text (w_ucd w) tt = Inr tx"
    and j: "o_json_dump orc = WrOk \<or> o_json_fallback orc = WrOk"
    and t: "o_txt_write orc = WrOk"
  shows "fst (persist w cfg orc src response s) = None"
proof -
  have "fst (write_json w orc (json_path w cfg src) fj response s) = None"
    using j by (auto simp: write_json_cases fst_write_file)
  then obtain s1 where wj: "write_json w orc (json_path w cfg src) fj response s = (None, s1)"
    by (cases "write_json w orc (json_path w cfg src) fj response s") simp
  show ?thesis
    unfolding persist_unfold[OF ex ft] wj using t by (simp add: write_file_def)
qed

lemma process_file_persist:
  assumes "\<not> skip w cfg src s"
    and "prepare w (w_behaviour w idx) src (emit (Processing idx n (e_name src)) s) = (None, use_path, s1)"
    and "o_transcribe (w_behaviour w idx) use_path = Inr response"
  shows "process_file w cfg n idx src s
         = persist w cfg (w_behaviour w idx) src response (s1\<lparr>st_calls := st_calls s1 @ [use_path]\<rparr>)"
  using assms by (simp add: process_file_def)

lemma strip_placeholder: "strip u placeholder = placeholder"
  by (simp add: strip_def placeholder_def asc_def isspace_def)

lemma placeholder_not_blank: "strip u t = [] \<Longrightarrow> placeholder \<noteq> t"
  using strip_placeholder[of u] by (auto simp: placeholder_def)

text \<open>
  Claim C8. When a file is processed, its transcription succeeds and the extracted
  transcript is a string that is empty or holds only whitespace, and the iteration ends
  without an exception, then the plain-text file holds the fixed placeholder, the
  document is rendered from the placeholder (and holds that rendering when rendering
  succeeds), and the placeholder is not the extracted transcript.
\<close>

theorem placeholder_written:
  assumes "\<not> skip w cfg src s"
    and "prepare w (w_behaviour w idx) src (emit (Processing idx n (e_name src)) s) = (None, use_path, s1)"
    and "o_transcribe (w_behaviour w idx) use_path = Inr response"
    and "extract_transcript_from_response response = Inr (JStr t, full_json, confidence)"
    and "strip (w_ucd w) t = []"
    and "process_file w cfg n idx src s = (None, s')"
  shows "st_fs s' (txt_path w cfg src) = Some (TextFile placeholder)
       \<and> (\<forall>doc. to_pdf (w_ucd w) (o_fonts (w_behaviour w idx)) (o_now (w_behaviour w idx))
                   (o_pdf_fails (w_behaviour w idx)) placeholder (doc_title src)
                   (Some (meta_info w cfg confidence)) (font_regular cfg) (font_bold cfg)
                   (pdf_minimal cfg) = Inr doc
              \<longrightarrow> st_fs s' (pdf_path w cfg src) = Some (PdfFile doc))
       \<and> placeholder \<noteq> t"
proof -
  have ft: "final_text (w_ucd w) (JStr t) = Inr placeholder"
    using assms(5) by (simp add: final_text_def)
  from assms(6) have ok: "persist w cfg (w_behaviour w idx) src response
        (s1\<lparr>st_calls := st_calls s1 @ [use_path]\<rparr>) = (None, s')"
    unfolding process_file_persist[OF assms(1-3)] .
  note fs = persist_success(1)[OF assms(4) ft ok]
  have a: "st_fs s' (txt_path w cfg src) = Some (TextFile placeholder)"
    unfolding fs using txt_path_neq_pdf[of w cfg src]
    by (simp add: written_txt split: sum.splits)
  have b: "st_fs s' (pdf_path w cfg src) = Some (PdfFile doc)"
    if "to_pdf (w_ucd w) (o_fonts (w_behaviour w idx)) (o_now (w_behaviour w idx))
                   (o_pdf_fails (w_behaviour w idx)) placeholder (doc_title src)
                   (Some (meta_info w cfg confidence)) (font_regular cfg) (font_bold cfg)
                   (pdf_minimal cfg) = Inr doc" for doc
    unfolding fs using that by simp
  from a b placeholder_not_blank[OF assms(5)] show ?thesis by blast
qed

theorem placeholder_written_witness:
  "\<not> skip (demo_world one_audio (\<lambda>i. blank_service)) demo_cfg (a_file ''a.wav'') empty_state
   \<and> extract_transcript_from_response (SdkResponse blank_payload)
       = Inr (JStr [32, 10, 9], blank_payload, JNull)
   \<and> strip ascii_ucd [32, 10, 9] = []
   \<and> fst (process_file (demo_world one_audio (\<lambda>i. blank_service)) demo_cfg 1 1 (a_file ''a.wav'')
         empty_state) = None
   \<and> st_fs (snd (process_file (demo_world one_audio (\<lambda>i. blank_service)) demo_cfg 1 1
         (a_file ''a.wav'') empty_state)) [asc ''out'', asc ''txt'', asc ''a.txt'']
       = Some (TextFile placeholder)"
proof -
  let ?w = "demo_world one_audio (\<lambda>i. blank_service)"
  let ?src = "a_file ''a.wav''"
  let ?s0 = "emit (Processing 1 1 (e_name ?src)) empty_state"
  have h1: "\<not> skip ?w demo_cfg ?src empty_state"
    by code_simp
  have nv: "\<not> is_video ?w ?src"
    by code_simp
  have h2: "prepare ?w (w_behaviour ?w 1) ?src ?s0 = (None, Original (e_name ?src), ?s0)"
    using nv by (simp add: prepare_def)
  have h3: "o_transcribe (w_behaviour ?w 1) (Original (e_name ?src)) = Inr (SdkResponse blank_payload)"
    by (simp add: demo_world_def blank_service_def)
  have h4: "extract_transcript_from_response (SdkResponse blank_payload)
       = Inr (JStr [32, 10, 9], blank_payload, JNull)"
    by code_simp
  have u: "w_ucd ?w = ascii_ucd"
    by (simp add: demo_world_def)
  have h5: "strip (w_ucd ?w) [32, 10, 9] = []"
    unfolding u by code_simp
  have ft: "final_text (w_ucd ?w) (JStr [32, 10, 9]) = Inr placeholder"
    using h5 by (simp add: final_text_def)
  have ok: "o_json_dump (w_behaviour ?w 1) = WrOk \<or> o_json_fallback (w_behaviour ?w 1) = WrOk"
    "o_txt_write (w_behaviour ?w 1) = WrOk"
    by (simp_all add: demo_world_def blank_service_def all_ok_def)
  have f: "fst (process_file ?w demo_cfg 1 1 ?src empty_state) = None"
    unfolding process_file_persist[OF h1 h2 h3] by (rule persist_returns[OF h4 ft ok])
  then have h6: "process_file ?w demo_cfg 1 1 ?src empty_state
                 = (None, snd (process_file ?w demo_cfg 1 1 ?src empty_state))"
    by (simp add: prod_eq_iff)
  have tp: "txt_path ?w demo_cfg ?src = [asc ''out'', asc ''txt'', asc ''a.txt'']"
    by code_simp
  from placeholder_written[OF h1 h2 h3 h4 h5 h6] tp
  have c: "st_fs (snd (process_file ?w demo_cfg 1 1 ?src empty_state))
             [asc ''out'', asc ''txt'', asc ''a.txt''] = Some (TextFile placeholder)"
    by simp
  from h1 h4 h5 u f c show ?thesis by simp
qed

text \<open>
  Claim C7. For a video file that is not skipped, when ffmpeg is unavailable or its run
  exits non-zero, the iteration hands the original file to the service and goes on as
  for any file: a failing transcription is reported and ends the iteration without an
  exception, a successful one is persisted. No other file is handed to the service in
  that iteration.
\<close>

theorem original_submitted:
  assumes "is_video w src"
    and "\<not> skip w cfg src s"
    and "\<not> w_has_ffmpeg w \<or> o_extract (w_behaviour w idx) = Some CalledProcessError"
  shows "process_file w cfg n idx src s =
           (case o_transcribe (w_behaviour w idx) (Original (e_name src)) of
              Inl e \<Rightarrow>
                (None, emit (TranscribeError e)
                   ((if w_has_ffmpeg w
                     then emit (ExtractFailed (e_name src)) (emit (Processing idx n (e_name src)) s)
                     else emit (Processing idx n (e_name src)) s)
                    \<lparr>st_calls := st_calls s @ [Original (e_name src)]\<rparr>))
            | Inr response \<Rightarrow>
                persist w cfg (w_behaviour w idx) src response
                   ((if w_has_ffmpeg w
                     then emit (ExtractFailed (e_name src)) (emit (Processing idx n (e_name src)) s)
                     else emit (Processing idx n (e_name src)) s)
                    \<lparr>st_calls := st_calls s @ [Original (e_name src)]\<rparr>))
       \<and> st_calls (snd (process_file w cfg n idx src s)) = st_calls s @ [Original (e_name src)]"
proof -
  let ?s1 = "(if w_has_ffmpeg w
               then emit (ExtractFailed (e_name src)) (emit (Processing idx n (e_name src)) s)
               else emit (Processing idx n (e_name src)) s)"
  have pr: "prepare w (w_behaviour w idx) src (emit (Processing idx n (e_name src)) s)
            = (None, Original (e_name src), ?s1)"
    using assms(1,3) by (auto simp: prepare_def)
  have c: "st_calls ?s1 = st_calls s"
    by (cases "w_has_ffmpeg w") (simp_all add: st_calls_emit)
  have eq: "process_file w cfg n idx src s =
           (case o_transcribe (w_behaviour w idx) (Original (e_name src)) of
              Inl e \<Rightarrow> (None, emit (TranscribeError e) (?s1\<lparr>st_calls := st_calls s @ [Original (e_name src)]\<rparr>))
            | Inr response \<Rightarrow>
                persist w cfg (w_behaviour w idx) src response
                   (?s1\<lparr>st_calls := st_calls s @ [Original (e_name src)]\<rparr>))"
  proof (cases "o_transcribe (w_behaviour w idx) (Original (e_name src))")
    case (Inl e)
    with assms(2) pr c show ?thesis by (simp add: process_file_def)
  next
    case (Inr response)
    with assms(2) pr c show ?thesis by (simp add: process_file_def)
  qed
  have "st_calls (snd (process_file w cfg n idx src s)) = st_calls s @ [Original (e_name src)]"
    unfolding eq
    by (cases "o_transcribe (w_behaviour w idx) (Original (e_name src))")
       (simp_all add: st_calls_emit st_calls_persist)
  with eq show ?thesis by simp
qed

theorem original_submitted_witness:
  "is_video (demo_world one_video (\<lambda>i. ffmpeg_fails)) (a_file ''clip.mp4'')
   \<and> \<not> skip (demo_world one_video (\<lambda>i. ffmpeg_fails)) demo_cfg (a_file ''clip.mp4'') empty_state
   \<and> o_extract (w_behaviour (demo_world one_video (\<lambda>i. ffmpeg_fails)) 1) = Some CalledProcessError
   \<and> st_calls (snd (process_file (demo_world one_video (\<lambda>i. ffmpeg_fails)) demo_cfg 1 1
        (a_file ''clip.mp4'') empty_state)) = [Original (asc ''clip.mp4'')]
   \<and> \<not> w_has_ffmpeg ((demo_world one_video (\<lambda>i. all_ok))\<lparr>w_has_ffmpeg := False\<rparr>)
   \<and> st_calls (snd (process_file ((demo_world one_video (\<lambda>i. all_ok))\<lparr>w_has_ffmpeg := False\<rparr>)
        demo_cfg 1 1 (a_file ''clip.mp4'') empty_state)) = [Original (asc ''clip.mp4'')]"
proof -
  let ?w1 = "demo_world one_video (\<lambda>i. ffmpeg_fails)"
  let ?w2 = "(demo_world one_video (\<lambda>i. all_ok))\<lparr>w_has_ffmpeg := False\<rparr>"
  let ?src = "a_file ''clip.mp4''"
  have v1: "is_video ?w1 ?src" by code_simp
  have v2: "is_video ?w2 ?src" by code_simp
  have k1: "\<not> skip ?w1 demo_cfg ?src empty_state" by code_simp
  have k2: "\<not> skip ?w2 demo_cfg ?src empty_state" by code_simp
  have x1: "o_extract (w_behaviour ?w1 1) = Some CalledProcessError"
    by (simp add: demo_world_def ffmpeg_fails_def)
  have x2: "\<not> w_has_ffmpeg ?w2" by simp
  have n: "e_name ?src = asc ''clip.mp4''" by (simp add: a_file_def)
  have e: "st_calls empty_state = []" by (simp add: empty_state_def)
  from original_submitted[OF v1 k1 disjI2[OF x1], THEN conjunct2, of 1] n e
  have a: "st_calls (snd (process_file ?w1 demo_cfg 1 1 ?src empty_state)) = [Original (asc ''clip.mp4'')]"
    by simp
  from original_submitted[OF v2 k2 disjI1[OF x2], THEN conjunct2, of 1 1] n e
  have b: "st_calls (snd (process_file ?w2 demo_cfg 1 1 ?src empty_state)) = [Original (asc ''clip.mp4'')]"
    by simp
  from v1 k1 x1 a x2 b show ?thesis by simp
qed

section \<open>Rendering\<close>

lemma sanitize_hyphenate: "sanitize_for_core_fonts (hyphenate t) = sanitize_for_core_fonts t"
proof -
  have "replace_char 8211 [45] (replace_char 8212 [45] (hyphenate t)) = hyphenate t"
    by (simp add: hyphenate_def replace_char_single)
  then show ?thesis
    by (simp add: sanitize_for_core_fonts_def replacements_def hyphenate_def)
qed

lemma texts_written_append: "texts_written (xs @ ys) = texts_written xs @ texts_written ys"
  by (simp add: texts_written_def)

lemma texts_added:
  "choose_fonts fe fr fb = (core, added, hf) \<Longrightarrow> texts_written added = []"
  by (auto simp: choose_fonts_def Let_def texts_written_def
      split: prod.splits option.splits if_splits)

lemma texts_header:
  "texts_written (header_ops core hf now title meta) =
     [if core then sanitize_for_core_fonts title else hyphenate title,
      if core then sanitize_for_core_fonts (asc ''Generated: '' @ now) else asc ''Generated: '' @ now]
     @ (case info_of meta of
          None \<Rightarrow> []
        | Some i \<Rightarrow> [asc ''Info: '' @ (if core then sanitize_for_core_fonts i else i)])"
proof -
  have t: "title_safe core title = (if core then sanitize_for_core_fonts title else hyphenate title)"
    using sanitize_hyphenate[of title] by (simp add: title_safe_def Let_def hyphenate_def)
  obtain fam style sz where hf: "hf = (fam, style, sz)" by (cases hf)
  show ?thesis
    by (simp add: header_ops_def texts_written_def t gen_line_def Let_def info_line_def info_of_def
        set_font_def meta_font_def hf split: option.splits)
qed

lemma texts_body:
  "texts_written (map (body_op u core) ls) =
     filter (\<lambda>l. strip u l \<noteq> []) (map (if core then sanitize_for_core_fonts else (\<lambda>l. l)) ls)"
  by (induction ls) (simp_all add: texts_written_def body_op_def body_out_def Let_def)

text \<open>
  Claim C4, amended. In every render call that produces a document, the texts written
  are, in order, the title, the generated-timestamp line and the metadata line (none of
  the three in minimal mode, the third only when there is metadata), then every line of
  the body that is not blank. With a registered Unicode font the timestamp line, the
  metadata and the body lines are written unmodified, and the title is written with its
  em and en dashes replaced by hyphens and otherwise unmodified. With the core font the
  title, the timestamp line, the metadata and every body line are sanitized first.
\<close>

theorem fragments_written:
  assumes "choose_fonts fe fr fb = (core, added, hf)"
    and "to_pdf u fe now None body title meta fr fb minimal = Inr doc"
  shows "(\<not> core \<longrightarrow>
           texts_written doc =
             (if minimal then []
              else [hyphenate title, asc ''Generated: '' @ now]
                   @ (case info_of meta of None \<Rightarrow> [] | Some i \<Rightarrow> [asc ''Info: '' @ i]))
             @ filter (\<lambda>l. strip u l \<noteq> []) (splitlines body))
       \<and> (core \<longrightarrow>
           texts_written doc =
             (if minimal then []
              else [sanitize_for_core_fonts title, sanitize_for_core_fonts (asc ''Generated: '' @ now)]
                   @ (case info_of meta of
                        None \<Rightarrow> []
                      | Some i \<Rightarrow> [asc ''Info: '' @ sanitize_for_core_fonts i]))
             @ filter (\<lambda>l. strip u l \<noteq> []) (map sanitize_for_core_fonts (splitlines body)))"
proof -
  from assms have doc: "doc = added
        @ (if minimal then [] else header_ops core hf now title meta)
        @ [set_font (body_font core)]
        @ map (body_op u core) (splitlines body)"
    by (simp add: to_pdf_def)
  have sf: "texts_written [set_font (body_font core)] = []"
    by (simp add: texts_written_def set_font_def body_font_def)
  have "texts_written doc =
          (if minimal then [] else texts_written (header_ops core hf now title meta))
          @ texts_written (map (body_op u core) (splitlines body))"
    unfolding doc using texts_added[OF assms(1)] sf
    by (simp add: texts_written_append) (simp add: texts_written_def)
  then show ?thesis
    by (cases core) (simp_all add: texts_header texts_body split: option.splits)
qed

lemma splitlines_sample: "splitlines sample_body = [asc ''hola'', [32], [8364]]"
  by (simp add: splitlines_def sample_body_def asc_def is_linebreak_def)

lemma sanitize_samples:
  "sanitize_for_core_fonts [97, 8212, 98] = [97, 45, 98]"
  "sanitize_for_core_fonts (asc ''Generated: 12:00'') = asc ''Generated: 12:00''"
  "sanitize_for_core_fonts [8220, 120] = [34, 120]"
  "sanitize_for_core_fonts (asc ''hola'') = asc ''hola''"
  "sanitize_for_core_fonts [32] = [32]"
  "sanitize_for_core_fonts [8364] = [63]"
  by (simp_all add: sanitize_for_core_fonts_def replacements_def latin1_replace_def
      replace_char_def asc_def)

lemma strip_samples:
  "strip ascii_ucd (asc ''hola'') \<noteq> []" "strip ascii_ucd [32] = []"
  "strip ascii_ucd [8364] \<noteq> []" "strip ascii_ucd [63] \<noteq> []"
  by (simp_all add: strip_def isspace_def ascii_ucd_def asc_def)

theorem fragments_written_witness:
  "fst (choose_fonts dejavu None None) = False
   \<and> (\<exists>doc. to_pdf ascii_ucd dejavu (asc ''12:00'') None sample_body [97, 8212, 98] sample_meta
               None None False = Inr doc
            \<and> texts_written doc
                = [asc ''a-b'', asc ''Generated: 12:00'', asc ''Info: '' @ [8220, 120],
                   asc ''hola'', [8364]])
   \<and> fst (choose_fonts no_fonts None None) = True
   \<and> (\<exists>doc. to_pdf ascii_ucd no_fonts (asc ''12:00'') None sample_body [97, 8212, 98] sample_meta
               None None False = Inr doc
            \<and> texts_written doc
                = [asc ''a-b'', asc ''Generated: 12:00'', asc ''Info: '' @ [34, 120],
                   asc ''hola'', [63]])"
proof -
  have c1: "choose_fonts dejavu None None
            = (False, [AddFont [] (LocalFont (asc ''DejaVuSans.ttf''))], (FontU, [], 16))"
    by (simp add: choose_fonts_def given_path_def find_unicode_font_paths_def dejavu_def
        local_candidates_def Let_def asc_def)
  have c2: "choose_fonts no_fonts None None = (True, [], (Helvetica, asc ''B'', 16))"
    by (simp add: choose_fonts_def given_path_def find_unicode_font_paths_def no_fonts_def
        local_candidates_def Let_def)
  obtain d1 where d1: "to_pdf ascii_ucd dejavu (asc ''12:00'') None sample_body [97, 8212, 98]
        sample_meta None None False = Inr d1"
    by (simp add: to_pdf_def c1)
  obtain d2 where d2: "to_pdf ascii_ucd no_fonts (asc ''12:00'') None sample_body [97, 8212, 98]
        sample_meta None None False = Inr d2"
    by (simp add: to_pdf_def c2)
  have i: "info_of sample_meta = Some [8220, 120]"
    by (simp add: info_of_def sample_meta_def)
  have h: "hyphenate [97, 8212, 98] = [97, 45, 98]"
    by (simp add: hyphenate_def replace_char_def)
  from fragments_written[OF c1 d1]
  have t1: "texts_written d1
            = [asc ''a-b'', asc ''Generated: 12:00'', asc ''Info: '' @ [8220, 120], asc ''hola'', [8364]]"
    using strip_samples by (simp add: i h splitlines_sample) (simp add: asc_def)
  from fragments_written[OF c2 d2]
  have t2: "texts_written d2
            = [asc ''a-b'', asc ''Generated: 12:00'', asc ''Info: '' @ [34, 120], asc ''hola'', [63]]"
    using strip_samples by (simp add: i splitlines_sample sanitize_samples)
      (simp add: asc_def sanitize_for_core_fonts_def replacements_def latin1_replace_def
        replace_char_def)
  from c1 c2 d1 d2 t1 t2 show ?thesis by simp
qed

text \<open>
  Claim C4 as stated fails for the title: with a Unicode font registered, a title with
  an em dash is written with a hyphen in its place.
\<close>

theorem title_rewritten_counterexample:
  "choose_fonts dejavu None None = (False, [AddFont [] (LocalFont (asc ''DejaVuSans.ttf''))], (FontU, [], 16))
   \<and> to_pdf ascii_ucd dejavu (asc ''12:00'') None [] [97, 8212, 98] None None None False
       = Inr [AddFont [] (LocalFont (asc ''DejaVuSans.ttf'')),
              SetFont FontU [] 16, Cell 0 10 [97, 45, 98],
              SetFont FontU [] 10, Cell 0 8 (asc ''Generated: 12:00''),
              Ln 3, SetFont FontU [] 12]
   \<and> [97, 8212, 98] \<noteq> [97, 45, 98 :: nat]"
  by (simp add: to_pdf_def choose_fonts_def given_path_def find_unicode_font_paths_def dejavu_def
      local_candidates_def header_ops_def title_safe_def gen_line_def replace_char_def set_font_def
      meta_font_def body_font_def splitlines_def asc_def Let_def)

section \<open>Skipping, completeness and exceptions\<close>

lemma skip_complete: "skip w cfg src s \<longleftrightarrow> \<not> overwrite cfg \<and> complete w cfg src s"
  by (auto simp: skip_def complete_def)

lemma process_file_skip:
  "skip w cfg src s \<Longrightarrow> process_file w cfg n idx src s = (None, emit (Skipping idx n (e_name src)) s)"
  by (simp add: process_file_def)

lemma prepare_frame:
  "prepare w orc src s = (r, up, s1) \<Longrightarrow> st_fs s1 = st_fs s \<and> st_calls s1 = st_calls s"
  by (auto simp: prepare_def st_fs_emit st_calls_emit split: if_splits option.splits)

lemma complete_cong: "st_fs s1 = st_fs s \<Longrightarrow> complete w cfg src s1 = complete w cfg src s"
  by (simp add: complete_def exists_file_def)

lemma skip_cong: "st_fs s1 = st_fs s \<Longrightarrow> skip w cfg src s1 = skip w cfg src s"
  by (simp add: skip_def exists_file_def)

lemma process_loop_all_skipped:
  "\<forall>(i, src) \<in> set files. skip w cfg src s \<Longrightarrow>
   process_loop w cfg n files s = (None, s\<lparr>st_log := st_log s @ skipping_lines n files\<rparr>)"
proof (induction files arbitrary: s)
  case Nil
  then show ?case by (simp add: skipping_lines_def)
next
  case (Cons p rest)
  obtain idx src where p: "p = (idx, src)" by (cases p)
  let ?s1 = "emit (Skipping idx n (e_name src)) s"
  from Cons.prems p have sk: "skip w cfg src s" by simp
  have "\<forall>(i, src) \<in> set rest. skip w cfg src ?s1"
    using Cons.prems skip_cong[of ?s1 s w cfg] by (auto simp: st_fs_emit)
  from Cons.IH[OF this] have
    "process_loop w cfg n rest ?s1 = (None, ?s1\<lparr>st_log := st_log ?s1 @ skipping_lines n rest\<rparr>)" .
  then show ?case
    using sk p by (simp add: process_file_skip skipping_lines_def emit_def)
qed

lemma second_run_all_skipped:
  assumes su: "set_up w' cfg"
    and same: "w_in_dir w' = Some es" "w_ucd w' = w_ucd w" "w_resolve w' = w_resolve w"
      "w_windows w' = w_windows w"
    and off: "\<not> overwrite cfg"
    and all: "\<forall>src \<in> set (discover (w_ucd w) (w_windows w) es). complete w cfg src s1"
  shows "fst (process_videos w' cfg s1) = None
       \<and> st_fs (snd (process_videos w' cfg s1)) = st_fs s1
       \<and> st_calls (snd (process_videos w' cfg s1)) = st_calls s1
       \<and> st_log (snd (process_videos w' cfg s1))
           = st_log s1 @ (if w_has_ffmpeg w' then [] else [WarnNoFfmpeg])
             @ (if discover (w_ucd w) (w_windows w) es = [] then [NoFiles]
                else Found (length (discover (w_ucd w) (w_windows w) es))
                     # skipping_lines (length (discover (w_ucd w) (w_windows w) es)) (enumerate 1 (discover (w_ucd w) (w_windows w) es))
                     @ [Finished])"
proof -
  let ?files = "discover (w_ucd w) (w_windows w) es"
  let ?s0 = "if \<not> w_has_ffmpeg w' then emit WarnNoFfmpeg s1 else s1"
  let ?s2 = "emit (Found (length ?files)) ?s0"
  have paths: "txt_path w' cfg = txt_path w cfg" "json_path w' cfg = json_path w cfg"
    "pdf_path w' cfg = pdf_path w cfg"
    using same(2,3)
    by (auto simp: txt_path_def json_path_def pdf_path_def dest_dir_def base_name_def fun_eq_iff
        split: option.splits)
  have fs2: "st_fs ?s2 = st_fs s1"
    by (simp add: st_fs_emit)
  have sk: "\<forall>(i, src) \<in> set (enumerate 1 ?files). skip w' cfg src ?s2"
  proof -
    have "skip w' cfg src ?s2" if "src \<in> set ?files" for src
      using all that off fs2 paths
      by (simp add: skip_def complete_def exists_file_def)
    then show ?thesis
      by (auto simp: in_set_enumerate_eq)
  qed
  note lp = process_loop_all_skipped[OF sk, of "length ?files"]
  have d: "discover (w_ucd w') (w_windows w') es = ?files"
    using same by simp
  note pvs = process_videos_set_up[OF su same(1), of s1, unfolded d]
  show ?thesis
  proof (cases "?files = []")
    case True
    then show ?thesis
      by (simp add: pvs Let_def st_fs_emit st_calls_emit st_log_emit)
  next
    case False
    then show ?thesis
      using lp
      by (simp add: pvs Let_def st_fs_emit st_calls_emit st_log_emit)
  qed
qed


lemma exists_emit: "exists_file (emit m s) q = exists_file s q"
  by (simp add: exists_file_def st_fs_emit)

lemma exists_write_file: "exists_file s q \<Longrightarrow> exists_file (snd (write_file r p c s)) q"
  by (cases r) (simp_all add: exists_file_def write_file_def)

lemma exists_write_json: "exists_file s q \<Longrightarrow> exists_file (snd (write_json w orc p j r s)) q"
  by (simp add: write_json_cases exists_write_file)

lemma exists_render: "exists_file s q \<Longrightarrow> exists_file (render w cfg orc src tx conf s) q"
  by (simp add: exists_file_def st_fs_render split: sum.splits)

lemma exists_persist:
  assumes "exists_file s q"
  shows "exists_file (snd (persist w cfg orc src response s)) q"
proof (cases "extract_transcript_from_response response")
  case (Inl e)
  with assms show ?thesis by (simp add: persist_def)
next
  case (Inr res)
  obtain tt fj conf where res: "res = (tt, fj, conf)" by (cases res)
  show ?thesis
  proof (cases "final_text (w_ucd w) tt")
    case (Inl e)
    with Inr res assms show ?thesis by (simp add: persist_def)
  next
    case ft: (Inr tx)
    obtain a s1 where wj: "write_json w orc (json_path w cfg src) fj response s = (a, s1)"
      by (cases "write_json w orc (json_path w cfg src) fj response s")
    with exists_write_json[OF assms, of w orc "json_path w cfg src" fj response]
    have e1: "exists_file s1 q" by simp
    obtain b s2 where wt: "write_file (o_txt_write orc) (txt_path w cfg src) (TextFile tx) s1 = (b, s2)"
      by (cases "write_file (o_txt_write orc) (txt_path w cfg src) (TextFile tx) s1")
    with exists_write_file[OF e1, of "o_txt_write orc" "txt_path w cfg src" "TextFile tx"]
    have e2: "exists_file s2 q" by simp
    show ?thesis
      unfolding persist_unfold[OF Inr[unfolded res] ft] wj
      using e1 e2 wt by (cases a; cases b) (simp_all add: exists_emit exists_render)
  qed
qed

lemma exists_process_file:
  assumes "exists_file s q"
  shows "exists_file (snd (process_file w cfg n idx src s)) q"
proof (cases "skip w cfg src s")
  case True
  with assms show ?thesis by (simp add: process_file_skip exists_emit)
next
  case False
  let ?s0 = "emit (Processing idx n (e_name src)) s"
  obtain r up s1 where pr: "prepare w (w_behaviour w idx) src ?s0 = (r, up, s1)"
    by (cases "prepare w (w_behaviour w idx) src ?s0")
  from prepare_frame[OF pr] assms have e1: "exists_file s1 q"
    by (simp add: exists_file_def st_fs_emit)
  then have e2: "exists_file (s1\<lparr>st_calls := st_calls s1 @ [up]\<rparr>) q"
    by (simp add: exists_file_def)
  show ?thesis
  proof (cases r)
    case (Some e)
    with False pr e1 show ?thesis by (simp add: process_file_def)
  next
    case None
    show ?thesis
    proof (cases "o_transcribe (w_behaviour w idx) up")
      case (Inl e)
      with None False pr e2 show ?thesis by (simp add: process_file_def exists_emit)
    next
      case (Inr response)
      with None False pr exists_persist[OF e2, of w cfg "w_behaviour w idx" src response]
      show ?thesis by (simp add: process_file_def)
    qed
  qed
qed

lemma complete_process_file:
  "complete w cfg src0 s \<Longrightarrow> complete w cfg src0 (snd (process_file w cfg n idx src s))"
  by (simp add: complete_def exists_process_file)

lemma complete_process_loop:
  "complete w cfg src0 s \<Longrightarrow> complete w cfg src0 (snd (process_loop w cfg n files s))"
proof (induction files arbitrary: s)
  case Nil
  then show ?case by simp
next
  case (Cons p rest)
  obtain idx src where p: "p = (idx, src)" by (cases p)
  obtain r s1 where pf: "process_file w cfg n idx src s = (r, s1)"
    by (cases "process_file w cfg n idx src s")
  from complete_process_file[OF Cons.prems, of n idx src] pf have c1: "complete w cfg src0 s1" by simp
  show ?case
    using p pf c1 Cons.IH[OF c1] by (cases r) simp_all
qed

lemma prepare_confined:
  assumes "o_extract orc = None \<or> o_extract orc = Some CalledProcessError"
  shows "fst (prepare w orc src s) = None"
  using assms by (auto simp: prepare_def)

lemma final_text_string: "\<exists>tx. final_text u (JStr t) = Inr tx"
  by (simp add: final_text_def)

lemma string_transcript_extract:
  "string_transcript r \<Longrightarrow> \<exists>t fj conf. extract_transcript_from_response r = Inr (JStr t, fj, conf)"
  by (auto simp: string_transcript_def split: sum.splits prod.splits json.splits)

lemma process_file_confined:
  assumes c: "confined (w_behaviour w idx)"
  shows "fst (process_file w cfg n idx src s) = None"
proof (cases "skip w cfg src s")
  case True
  then show ?thesis by (simp add: process_file_skip)
next
  case False
  let ?orc = "w_behaviour w idx"
  let ?s0 = "emit (Processing idx n (e_name src)) s"
  obtain r up s1 where pr: "prepare w ?orc src ?s0 = (r, up, s1)"
    by (cases "prepare w ?orc src ?s0")
  from c have "o_extract ?orc = None \<or> o_extract ?orc = Some CalledProcessError"
    by (simp add: confined_def)
  from prepare_confined[OF this, of w src ?s0] pr have r: "r = None" by simp
  show ?thesis
  proof (cases "o_transcribe ?orc up")
    case (Inl e)
    with r False pr show ?thesis by (simp add: process_file_def)
  next
    case (Inr response)
    from c Inr have "string_transcript response" by (auto simp: confined_def)
    from string_transcript_extract[OF this] obtain t fj conf where
      ex: "extract_transcript_from_response response = Inr (JStr t, fj, conf)" by blast
    from final_text_string obtain tx where ft: "final_text (w_ucd w) (JStr t) = Inr tx" by blast
    from c have j: "o_json_dump ?orc = WrOk \<or> o_json_fallback ?orc = WrOk"
      and t: "o_txt_write ?orc = WrOk" by (simp_all add: confined_def)
    show ?thesis
      unfolding process_file_persist[OF False pr[unfolded r] Inr]
      by (rule persist_returns[OF ex ft j t])
  qed
qed

lemma process_loop_confined:
  assumes "\<forall>idx. confined (w_behaviour w idx)"
  shows "fst (process_loop w cfg n files s) = None"
proof (induction files arbitrary: s)
  case Nil
  then show ?case by simp
next
  case (Cons p rest)
  obtain idx src where p: "p = (idx, src)" by (cases p)
  obtain r s1 where pf: "process_file w cfg n idx src s = (r, s1)"
    by (cases "process_file w cfg n idx src s")
  from assms have "confined (w_behaviour w idx)" by simp
  from process_file_confined[OF this, of cfg n src s] pf have "r = None" by simp
  with p pf Cons.IH[of s1] show ?case by simp
qed

lemma process_videos_confined:
  assumes "w_in_dir w = Some es" and "\<forall>idx. confined (w_behaviour w idx)"
    and su: "set_up w cfg"
  shows "fst (process_videos w cfg s) = None"
proof -
  let ?files = "discover (w_ucd w) (w_windows w) es"
  let ?s2 = "emit (Found (length ?files)) (if \<not> w_has_ffmpeg w then emit WarnNoFfmpeg s else s)"
  obtain r s3 where lp: "process_loop w cfg (length ?files) (enumerate 1 ?files) ?s2 = (r, s3)"
    by (cases "process_loop w cfg (length ?files) (enumerate 1 ?files) ?s2")
  from process_loop_confined[OF assms(2), of cfg "length ?files" "enumerate 1 ?files" ?s2] lp
  have "r = None" by simp
  with lp show ?thesis
    by (simp add: process_videos_set_up[OF su assms(1)] Let_def)
qed


lemma to_pdf_ok: "\<exists>doc. to_pdf u fe now None body title meta fr fb minimal = Inr doc"
  by (simp add: to_pdf_def split: prod.splits)

lemma process_file_writes:
  assumes ns: "\<not> skip w cfg src s"
    and pr: "prepare w (w_behaviour w idx) src (emit (Processing idx n (e_name src)) s) = (None, up, s1)"
    and tr: "o_transcribe (w_behaviour w idx) up = Inr response"
    and ex: "extract_transcript_from_response response = Inr (tt, fj, conf)"
    and ft: "final_text (w_ucd w) tt = Inr tx"
    and ok: "process_file w cfg n idx src s = (None, s')"
  shows "st_fs s' =
           (case to_pdf (w_ucd w) (o_fonts (w_behaviour w idx)) (o_now (w_behaviour w idx))
                   (o_pdf_fails (w_behaviour w idx)) tx (doc_title src)
                   (Some (meta_info w cfg conf)) (font_regular cfg) (font_bold cfg) (pdf_minimal cfg) of
              Inr doc \<Rightarrow> (written w cfg (w_behaviour w idx) src response fj tx (st_fs s))
                            (pdf_path w cfg src \<mapsto> PdfFile doc)
            | Inl e \<Rightarrow> written w cfg (w_behaviour w idx) src response fj tx (st_fs s))"
proof -
  from ok have p: "persist w cfg (w_behaviour w idx) src response
        (s1\<lparr>st_calls := st_calls s1 @ [up]\<rparr>) = (None, s')"
    unfolding process_file_persist[OF ns pr tr] .
  from prepare_frame[OF pr] have fs: "st_fs (s1\<lparr>st_calls := st_calls s1 @ [up]\<rparr>) = st_fs s"
    by (simp add: st_fs_emit)
  show ?thesis
    using persist_success(1)[OF ex ft p] unfolding fs .
qed

lemma process_file_log_head:
  "\<exists>ms. st_log (snd (process_file w cfg n idx src s))
          = st_log s @ (if skip w cfg src s then Skipping idx n (e_name src)
                        else Processing idx n (e_name src)) # ms"
proof (cases "skip w cfg src s")
  case True
  then show ?thesis by (simp add: process_file_skip st_log_emit)
next
  case False
  let ?s0 = "emit (Processing idx n (e_name src)) s"
  obtain r up s1 where pr: "prepare w (w_behaviour w idx) src ?s0 = (r, up, s1)"
    by (cases "prepare w (w_behaviour w idx) src ?s0")
  from prepare_log[OF pr] obtain ms1 where ms1: "st_log s1 = st_log ?s0 @ ms1" by blast
  show ?thesis
  proof (cases r)
    case (Some e)
    with False pr ms1 show ?thesis by (simp add: process_file_def st_log_emit)
  next
    case None
    let ?s2 = "s1\<lparr>st_calls := st_calls s1 @ [up]\<rparr>"
    show ?thesis
    proof (cases "o_transcribe (w_behaviour w idx) up")
      case (Inl e)
      with None False pr ms1 show ?thesis by (simp add: process_file_def st_log_emit)
    next
      case (Inr response)
      from persist_log[of w cfg "w_behaviour w idx" src response ?s2]
      obtain ms2 where "st_log (snd (persist w cfg (w_behaviour w idx) src response ?s2)) = st_log ?s2 @ ms2"
        by blast
      with Inr None False pr ms1 show ?thesis by (simp add: process_file_def st_log_emit)
    qed
  qed
qed

lemma complete_after:
  assumes d: "dependable (w_behaviour w idx)"
  shows "complete w cfg src (snd (process_file w cfg n idx src s))"
proof (cases "skip w cfg src s")
  case True
  then have "complete w cfg src s" by (simp add: skip_complete)
  then show ?thesis by (rule complete_process_file)
next
  case False
  let ?orc = "w_behaviour w idx"
  let ?s0 = "emit (Processing idx n (e_name src)) s"
  from d have c: "confined ?orc" and pf: "o_pdf_fails ?orc = None"
    and tr: "\<forall>p. \<exists>r. o_transcribe ?orc p = Inr r" by (simp_all add: dependable_def)
  obtain r up s1 where pr: "prepare w ?orc src ?s0 = (r, up, s1)"
    by (cases "prepare w ?orc src ?s0")
  from c have "o_extract ?orc = None \<or> o_extract ?orc = Some CalledProcessError"
    by (simp add: confined_def)
  from prepare_confined[OF this, of w src ?s0] pr have r: "r = None" by simp
  from tr obtain response where resp: "o_transcribe ?orc up = Inr response" by blast
  from c resp have "string_transcript response" by (auto simp: confined_def)
  from string_transcript_extract[OF this] obtain t fj conf where
    ex: "extract_transcript_from_response response = Inr (JStr t, fj, conf)" by blast
  from final_text_string obtain tx where ft: "final_text (w_ucd w) (JStr t) = Inr tx" by blast
  from process_file_confined[OF c, of cfg n src s]
  have ok: "process_file w cfg n idx src s = (None, snd (process_file w cfg n idx src s))"
    by (simp add: prod_eq_iff)
  from to_pdf_ok obtain doc where
    doc: "to_pdf (w_ucd w) (o_fonts ?orc) (o_now ?orc) None tx (doc_title src)
            (Some (meta_info w cfg conf)) (font_regular cfg) (font_bold cfg) (pdf_minimal cfg) = Inr doc"
    by blast
  have "st_fs (snd (process_file w cfg n idx src s))
        = (written w cfg ?orc src response fj tx (st_fs s))(pdf_path w cfg src \<mapsto> PdfFile doc)"
    using process_file_writes[OF False pr[unfolded r] resp ex ft ok] doc pf by simp
  then show ?thesis
    by (simp add: complete_def exists_file_def written_def)
qed

lemma complete_after_loop:
  assumes d: "\<forall>idx. dependable (w_behaviour w idx)"
  shows "\<forall>(i, src) \<in> set files. complete w cfg src (snd (process_loop w cfg n files s))"
proof (induction files arbitrary: s)
  case Nil
  then show ?case by simp
next
  case (Cons p rest)
  obtain idx src where p: "p = (idx, src)" by (cases p)
  obtain r s1 where pf: "process_file w cfg n idx src s = (r, s1)"
    by (cases "process_file w cfg n idx src s")
  from d have dd: "dependable (w_behaviour w idx)" by simp
  then have "confined (w_behaviour w idx)" by (simp add: dependable_def)
  from process_file_confined[OF this, of cfg n src s] pf have r: "r = None" by simp
  from complete_after[OF dd, of cfg src n s] pf have c1: "complete w cfg src s1" by simp
  have eq: "process_loop w cfg n (p # rest) s = process_loop w cfg n rest s1"
    using p pf r by simp
  show ?case
    unfolding eq using p complete_process_loop[OF c1, of n rest] Cons.IH[of s1] by simp
qed

lemma complete_after_run:
  assumes "w_in_dir w = Some es" and d: "\<forall>idx. dependable (w_behaviour w idx)"
    and su: "set_up w cfg"
  shows "\<forall>src \<in> set (discover (w_ucd w) (w_windows w) es). complete w cfg src (snd (process_videos w cfg s))"
proof (cases "discover (w_ucd w) (w_windows w) es = []")
  case True
  then show ?thesis by simp
next
  case False
  let ?files = "discover (w_ucd w) (w_windows w) es"
  let ?s2 = "emit (Found (length ?files)) (if \<not> w_has_ffmpeg w then emit WarnNoFfmpeg s else s)"
  obtain r s3 where lp: "process_loop w cfg (length ?files) (enumerate 1 ?files) ?s2 = (r, s3)"
    by (cases "process_loop w cfg (length ?files) (enumerate 1 ?files) ?s2")
  from complete_after_loop[OF d, of "enumerate 1 ?files" cfg "length ?files" ?s2] lp
  have c3: "\<forall>(i, src) \<in> set (enumerate 1 ?files). complete w cfg src s3" by simp
  have c3': "complete w cfg src s3" if "src \<in> set ?files" for src
  proof -
    from that obtain k where "k < length ?files" "?files ! k = src"
      by (auto simp: in_set_conv_nth)
    then have "(1 + k, src) \<in> set (enumerate 1 ?files)"
      by (auto simp: in_set_enumerate_eq)
    with c3 show ?thesis by auto
  qed
  have "st_fs (snd (process_videos w cfg s)) = st_fs s3"
    using False lp by (cases r) (simp_all add: process_videos_set_up[OF su assms(1)] Let_def st_fs_emit)
  with c3' show ?thesis
    using complete_cong[of "snd (process_videos w cfg s)" s3 w cfg] by simp
qed

section \<open>The skip policy\<close>

lemma process_file_returns:
  assumes "\<not> skip w cfg src s"
    and "prepare w (w_behaviour w idx) src (emit (Processing idx n (e_name src)) s) = (None, up, s1)"
    and "o_transcribe (w_behaviour w idx) up = Inr response"
    and "extract_transcript_from_response response = Inr (tt, fj, conf)"
    and "final_text (w_ucd w) tt = Inr tx"
    and "o_json_dump (w_behaviour w idx) = WrOk \<or> o_json_fallback (w_behaviour w idx) = WrOk"
    and "o_txt_write (w_behaviour w idx) = WrOk"
  shows "fst (process_file w cfg n idx src s) = None"
  unfolding process_file_persist[OF assms(1,2,3)]
  by (rule persist_returns[OF assms(4,5,6,7)])

text \<open>
  Claim C2, amended. A file is skipped exactly when overwrite is disabled and its three
  destination files exist; a skipped file gets one line in the log and nothing else
  happens. Any other file is processed: its first line reports it as being processed.
  When its transcription is reached (the preparation of the audio ends without an
  exception) and succeeds, the extracted transcript is a string, and the text write and
  one of the two payload writes succeed, the iteration ends without an exception; and
  when the iteration ends without an exception after such a transcription, the payload
  and text files hold what this iteration wrote, and so does the document when
  rendering succeeded, whatever was there before. Consequently a run
  that is set up (the destination directories can be created, the client constructed,
  the source directory listed, and the progress sink returns), with overwrite disabled,
  that starts where every discovered file is complete returns, skips every file, hands
  nothing to the service and leaves every file as it was; and a first run that is set
  up returns and leaves every discovered file complete when in it the service answered
  every file and no rendering failed.
\<close>

theorem skip_policy:
  "skip w cfg src s = (\<not> overwrite cfg \<and> complete w cfg src s)
   \<and> (skip w cfg src s \<longrightarrow>
        process_file w cfg n idx src s = (None, emit (Skipping idx n (e_name src)) s))
   \<and> (\<not> skip w cfg src s \<longrightarrow>
        (\<exists>ms. st_log (snd (process_file w cfg n idx src s))
                = st_log s @ Processing idx n (e_name src) # ms))
   \<and> (\<not> skip w cfg src s
        \<and> prepare w (w_behaviour w idx) src (emit (Processing idx n (e_name src)) s) = (None, up, s1)
        \<and> o_transcribe (w_behaviour w idx) up = Inr response
        \<and> extract_transcript_from_response response = Inr (tt, fj, conf)
        \<and> final_text (w_ucd w) tt = Inr tx
        \<and> (o_json_dump (w_behaviour w idx) = WrOk \<or> o_json_fallback (w_behaviour w idx) = WrOk)
        \<and> o_txt_write (w_behaviour w idx) = WrOk \<longrightarrow>
        fst (process_file w cfg n idx src s) = None)
   \<and> (\<not> skip w cfg src s
        \<and> prepare w (w_behaviour w idx) src (emit (Processing idx n (e_name src)) s) = (None, up, s1)
        \<and> o_transcribe (w_behaviour w idx) up = Inr response
        \<and> extract_transcript_from_response response = Inr (tt, fj, conf)
        \<and> final_text (w_ucd w) tt = Inr tx
        \<and> process_file w cfg n idx src s = (None, s') \<longrightarrow>
        st_fs s' =
           (case to_pdf (w_ucd w) (o_fonts (w_behaviour w idx)) (o_now (w_behaviour w idx))
                   (o_pdf_fails (w_behaviour w idx)) tx (doc_title src)
                   (Some (meta_info w cfg conf)) (font_regular cfg) (font_bold cfg) (pdf_minimal cfg) of
              Inr doc \<Rightarrow> (written w cfg (w_behaviour w idx) src response fj tx (st_fs s))
                            (pdf_path w cfg src \<mapsto> PdfFile doc)
            | Inl e \<Rightarrow> written w cfg (w_behaviour w idx) src response fj tx (st_fs s)))
   \<and> (set_up w' cfg \<and> w_in_dir w' = Some es \<and> w_ucd w' = w_ucd w \<and> w_resolve w' = w_resolve w
        \<and> w_windows w' = w_windows w \<and> \<not> overwrite cfg
        \<and> (\<forall>f \<in> set (discover (w_ucd w) (w_windows w) es). complete w cfg f s2) \<longrightarrow>
        fst (process_videos w' cfg s2) = None
        \<and> st_fs (snd (process_videos w' cfg s2)) = st_fs s2
        \<and> st_calls (snd (process_videos w' cfg s2)) = st_calls s2
        \<and> st_log (snd (process_videos w' cfg s2))
            = st_log s2 @ (if w_has_ffmpeg w' then [] else [WarnNoFfmpeg])
              @ (if discover (w_ucd w) (w_windows w) es = [] then [NoFiles]
                 else Found (length (discover (w_ucd w) (w_windows w) es))
                      # skipping_lines (length (discover (w_ucd w) (w_windows w) es))
                          (enumerate 1 (discover (w_ucd w) (w_windows w) es))
                      @ [Finished]))
   \<and> (set_up w cfg \<and> w_in_dir w = Some es \<and> (\<forall>i. dependable (w_behaviour w i)) \<longrightarrow>
        fst (process_videos w cfg s) = None
        \<and> (\<forall>f \<in> set (discover (w_ucd w) (w_windows w) es). complete w cfg f (snd (process_videos w cfg s))))"
proof (intro conjI impI)
  show "skip w cfg src s = (\<not> overwrite cfg \<and> complete w cfg src s)"
    by (rule skip_complete)
next
  assume "skip w cfg src s"
  then show "process_file w cfg n idx src s = (None, emit (Skipping idx n (e_name src)) s)"
    by (rule process_file_skip)
next
  assume "\<not> skip w cfg src s"
  with process_file_log_head[of w cfg n idx src s]
  show "\<exists>ms. st_log (snd (process_file w cfg n idx src s))
                = st_log s @ Processing idx n (e_name src) # ms"
    by simp
next
  assume a: "\<not> skip w cfg src s
        \<and> prepare w (w_behaviour w idx) src (emit (Processing idx n (e_name src)) s) = (None, up, s1)
        \<and> o_transcribe (w_behaviour w idx) up = Inr response
        \<and> extract_transcript_from_response response = Inr (tt, fj, conf)
        \<and> final_text (w_ucd w) tt = Inr tx
        \<and> (o_json_dump (w_behaviour w idx) = WrOk \<or> o_json_fallback (w_behaviour w idx) = WrOk)
        \<and> o_txt_write (w_behaviour w idx) = WrOk"
  then show "fst (process_file w cfg n idx src s) = None"
    using process_file_returns[of w cfg src s idx n up s1 response tt fj conf tx] by blast
next
  assume a: "\<not> skip w cfg src s
        \<and> prepare w (w_behaviour w idx) src (emit (Processing idx n (e_name src)) s) = (None, up, s1)
        \<and> o_transcribe (w_behaviour w idx) up = Inr response
        \<and> extract_transcript_from_response response = Inr (tt, fj, conf)
        \<and> final_text (w_ucd w) tt = Inr tx
        \<and> process_file w cfg n idx src s = (None, s')"
  then show "st_fs s' =
           (case to_pdf (w_ucd w) (o_fonts (w_behaviour w idx)) (o_now (w_behaviour w idx))
                   (o_pdf_fails (w_behaviour w idx)) tx (doc_title src)
                   (Some (meta_info w cfg conf)) (font_regular cfg) (font_bold cfg) (pdf_minimal cfg) of
              Inr doc \<Rightarrow> (written w cfg (w_behaviour w idx) src response fj tx (st_fs s))
                            (pdf_path w cfg src \<mapsto> PdfFile doc)
            | Inl e \<Rightarrow> written w cfg (w_behaviour w idx) src response fj tx (st_fs s))"
    using process_file_writes[of w cfg src s idx n up s1 response tt fj conf tx s'] by blast
next
  assume a: "set_up w' cfg \<and> w_in_dir w' = Some es \<and> w_ucd w' = w_ucd w \<and> w_resolve w' = w_resolve w
        \<and> w_windows w' = w_windows w \<and> \<not> overwrite cfg
        \<and> (\<forall>f \<in> set (discover (w_ucd w) (w_windows w) es). complete w cfg f s2)"
  then have r: "fst (process_videos w' cfg s2) = None
       \<and> st_fs (snd (process_videos w' cfg s2)) = st_fs s2
       \<and> st_calls (snd (process_videos w' cfg s2)) = st_calls s2
       \<and> st_log (snd (process_videos w' cfg s2))
           = st_log s2 @ (if w_has_ffmpeg w' then [] else [WarnNoFfmpeg])
             @ (if discover (w_ucd w) (w_windows w) es = [] then [NoFiles]
                else Found (length (discover (w_ucd w) (w_windows w) es))
                     # skipping_lines (length (discover (w_ucd w) (w_windows w) es)) (enumerate 1 (discover (w_ucd w) (w_windows w) es))
                     @ [Finished])"
    using second_run_all_skipped[of w' cfg es w s2] by blast
  from r show "fst (process_videos w' cfg s2) = None" by blast
  from r show "st_fs (snd (process_videos w' cfg s2)) = st_fs s2" by blast
  from r show "st_calls (snd (process_videos w' cfg s2)) = st_calls s2" by blast
  from r show "st_log (snd (process_videos w' cfg s2))
           = st_log s2 @ (if w_has_ffmpeg w' then [] else [WarnNoFfmpeg])
             @ (if discover (w_ucd w) (w_windows w) es = [] then [NoFiles]
                else Found (length (discover (w_ucd w) (w_windows w) es))
                     # skipping_lines (length (discover (w_ucd w) (w_windows w) es)) (enumerate 1 (discover (w_ucd w) (w_windows w) es))
                     @ [Finished])" by blast
next
  assume a: "set_up w cfg \<and> w_in_dir w = Some es \<and> (\<forall>i. dependable (w_behaviour w i))"
  then have c: "\<forall>i. confined (w_behaviour w i)" by (simp add: dependable_def)
  from a c show "fst (process_videos w cfg s) = None"
    using process_videos_confined[of w es cfg s] by blast
  from a show "\<forall>f \<in> set (discover (w_ucd w) (w_windows w) es). complete w cfg f (snd (process_videos w cfg s))"
    using complete_after_run[of w es cfg s] by blast
qed

lemma set_up_demo: "set_up (demo_world es b) demo_cfg"
  by (simp add: set_up_def demo_world_def)

lemma extract_hola:
  "extract_transcript_from_response hola = Inr (JStr (asc ''hola''), hola_payload, JInt 1)"
  by code_simp

lemma audio_prepare:
  "\<not> is_video w src \<Longrightarrow> prepare w orc src s = (None, Original (e_name src), s)"
  by (simp add: prepare_def)

lemma final_text_hola: "final_text ascii_ucd (JStr (asc ''hola'')) = Inr (asc ''hola'')"
  by (simp add: final_text_def strip_def isspace_def asc_def)

lemma string_transcript_hola: "string_transcript hola"
  by code_simp

lemma dependable_all_ok: "dependable all_ok"
  using string_transcript_hola
  by (simp add: dependable_def confined_def all_ok_def)

theorem skip_policy_witness:
  "set_up (demo_world one_audio (\<lambda>i. all_ok)) demo_cfg
   \<and> w_in_dir (demo_world one_audio (\<lambda>i. all_ok)) = Some one_audio
   \<and> \<not> overwrite demo_cfg
   \<and> fst (process_videos (demo_world one_audio (\<lambda>i. all_ok)) demo_cfg empty_state) = None
   \<and> complete (demo_world one_audio (\<lambda>i. all_ok)) demo_cfg (a_file ''a.wav'')
        (snd (process_videos (demo_world one_audio (\<lambda>i. all_ok)) demo_cfg empty_state))
   \<and> skip (demo_world one_audio (\<lambda>i. all_ok)) demo_cfg (a_file ''a.wav'')
        (snd (process_videos (demo_world one_audio (\<lambda>i. all_ok)) demo_cfg empty_state))
   \<and> fst (process_videos (demo_world one_audio (\<lambda>i. all_ok)) demo_cfg
        (snd (process_videos (demo_world one_audio (\<lambda>i. all_ok)) demo_cfg empty_state))) = None
   \<and> st_fs (snd (process_videos (demo_world one_audio (\<lambda>i. all_ok)) demo_cfg
        (snd (process_videos (demo_world one_audio (\<lambda>i. all_ok)) demo_cfg empty_state))))
       = st_fs (snd (process_videos (demo_world one_audio (\<lambda>i. all_ok)) demo_cfg empty_state))
   \<and> st_log (snd (process_videos (demo_world one_audio (\<lambda>i. all_ok)) demo_cfg
        (snd (process_videos (demo_world one_audio (\<lambda>i. all_ok)) demo_cfg empty_state))))
       = st_log (snd (process_videos (demo_world one_audio (\<lambda>i. all_ok)) demo_cfg empty_state))
         @ [Found 1, Skipping 1 1 (asc ''a.wav''), Finished]
   \<and> overwrite overwriting
   \<and> st_fs stale_state [asc ''out'', asc ''txt'', asc ''a.txt''] = Some (TextFile (asc ''old''))
   \<and> complete (demo_world one_audio (\<lambda>i. all_ok)) overwriting (a_file ''a.wav'') stale_state
   \<and> \<not> skip (demo_world one_audio (\<lambda>i. all_ok)) overwriting (a_file ''a.wav'') stale_state
   \<and> fst (process_file (demo_world one_audio (\<lambda>i. all_ok)) overwriting 1 1 (a_file ''a.wav'')
        stale_state) = None
   \<and> st_fs (snd (process_file (demo_world one_audio (\<lambda>i. all_ok)) overwriting 1 1 (a_file ''a.wav'')
        stale_state)) [asc ''out'', asc ''txt'', asc ''a.txt''] = Some (TextFile (asc ''hola''))
   \<and> skip (demo_world one_audio (\<lambda>i. all_ok)) demo_cfg (a_file ''a.wav'') stale_state
   \<and> st_fs (snd (process_file (demo_world one_audio (\<lambda>i. all_ok)) demo_cfg 1 1 (a_file ''a.wav'')
        stale_state)) = st_fs stale_state"
proof -
  let ?w = "demo_world one_audio (\<lambda>i. all_ok)"
  let ?src = "a_file ''a.wav''"
  let ?s1 = "snd (process_videos ?w demo_cfg empty_state)"
  have dir: "w_in_dir ?w = Some one_audio"
    by (simp add: demo_world_def)
  have off: "\<not> overwrite demo_cfg"
    by (simp add: demo_cfg_def)
  have dep: "\<forall>i. dependable (w_behaviour ?w i)"
    using dependable_all_ok by (simp add: demo_world_def)
  have disc: "discover (w_ucd ?w) (w_windows ?w) one_audio = [?src]"
    by code_simp
  have ff: "w_has_ffmpeg ?w"
    by (simp add: demo_world_def)
  have n: "e_name ?src = asc ''a.wav''"
    by (simp add: a_file_def)
  have su: "set_up ?w demo_cfg"
    by (rule set_up_demo)
  note t = skip_policy[where w = ?w and w' = ?w and cfg = demo_cfg and es = one_audio
      and s = empty_state and ?s2.0 = ?s1]
  from t su dir dep have first: "fst (process_videos ?w demo_cfg empty_state) = None"
    and all: "\<forall>f \<in> set (discover (w_ucd ?w) (w_windows ?w) one_audio). complete ?w demo_cfg f ?s1"
    by blast+
  from all disc have c: "complete ?w demo_cfg ?src ?s1" by simp
  from skip_policy[where w = ?w and cfg = demo_cfg and src = ?src and s = ?s1] c off
  have sk: "skip ?w demo_cfg ?src ?s1" by blast
  from t su dir off all have second: "fst (process_videos ?w demo_cfg ?s1) = None"
    and fs: "st_fs (snd (process_videos ?w demo_cfg ?s1)) = st_fs ?s1"
    and lg: "st_log (snd (process_videos ?w demo_cfg ?s1))
            = st_log ?s1 @ (if w_has_ffmpeg ?w then [] else [WarnNoFfmpeg])
              @ (if discover (w_ucd ?w) (w_windows ?w) one_audio = [] then [NoFiles]
                 else Found (length (discover (w_ucd ?w) (w_windows ?w) one_audio))
                      # skipping_lines (length (discover (w_ucd ?w) (w_windows ?w) one_audio))
                          (enumerate 1 (discover (w_ucd ?w) (w_windows ?w) one_audio))
                      @ [Finished])"
    by blast+
  have lg': "st_log (snd (process_videos ?w demo_cfg ?s1))
            = st_log ?s1 @ [Found 1, Skipping 1 1 (asc ''a.wav''), Finished]"
    unfolding lg disc using ff n by (simp add: skipping_lines_def)
  let ?s0 = "emit (Processing 1 1 (e_name ?src)) stale_state"
  let ?r = "process_file ?w overwriting 1 1 ?src stale_state"
  have on: "overwrite overwriting"
    by (simp add: overwriting_def demo_cfg_def)
  have old: "st_fs stale_state [asc ''out'', asc ''txt'', asc ''a.txt''] = Some (TextFile (asc ''old''))"
    by (simp add: stale_state_def)
  have cs: "complete ?w cfg ?src stale_state" for cfg
    by (simp add: complete_def exists_file_def stale_state_def)
  from skip_policy[where w = ?w and cfg = overwriting and src = ?src and s = stale_state] on
  have ns: "\<not> skip ?w overwriting ?src stale_state" by blast
  from skip_policy[where w = ?w and cfg = demo_cfg and src = ?src and s = stale_state] off cs
  have sk0: "skip ?w demo_cfg ?src stale_state" by blast
  with skip_policy[where w = ?w and cfg = demo_cfg and src = ?src and s = stale_state
      and idx = 1 and n = 1]
  have "process_file ?w demo_cfg 1 1 ?src stale_state
        = (None, emit (Skipping 1 1 (e_name ?src)) stale_state)"
    by blast
  then have same: "st_fs (snd (process_file ?w demo_cfg 1 1 ?src stale_state)) = st_fs stale_state"
    by (simp add: st_fs_emit)
  have nv: "\<not> is_video ?w ?src"
    unfolding demo_world_def by code_simp
  have b1: "w_behaviour ?w 1 = all_ok" and u: "w_ucd ?w = ascii_ucd"
    by (simp_all add: demo_world_def)
  have pr: "prepare ?w (w_behaviour ?w 1) ?src ?s0 = (None, Original (e_name ?src), ?s0)"
    by (rule audio_prepare[OF nv])
  have tr: "o_transcribe (w_behaviour ?w 1) (Original (e_name ?src)) = Inr hola"
    unfolding b1 by (simp add: all_ok_def)
  have ft: "final_text (w_ucd ?w) (JStr (asc ''hola'')) = Inr (asc ''hola'')"
    unfolding u by (rule final_text_hola)
  have wr: "o_json_dump (w_behaviour ?w 1) = WrOk \<or> o_json_fallback (w_behaviour ?w 1) = WrOk"
    "o_txt_write (w_behaviour ?w 1) = WrOk"
    unfolding b1 by (simp_all add: all_ok_def)
  note t2 = skip_policy[where w = ?w and cfg = overwriting and src = ?src and s = stale_state
      and idx = 1 and n = 1 and up = "Original (e_name ?src)" and ?s1.0 = ?s0 and response = hola
      and tt = "JStr (asc ''hola'')" and fj = hola_payload and conf = "JInt 1" and tx = "asc ''hola''"
      and s' = "snd ?r"]
  from t2 ns pr tr extract_hola ft wr have ret: "fst ?r = None"
    by blast
  then have eq: "?r = (None, snd ?r)"
    by (simp add: prod_eq_iff)
  have tp: "txt_path ?w overwriting ?src = [asc ''out'', asc ''txt'', asc ''a.txt'']"
    by code_simp
  from t2 ns pr tr extract_hola ft eq
  have "st_fs (snd ?r) =
           (case to_pdf (w_ucd ?w) (o_fonts (w_behaviour ?w 1)) (o_now (w_behaviour ?w 1))
                   (o_pdf_fails (w_behaviour ?w 1)) (asc ''hola'') (doc_title ?src)
                   (Some (meta_info ?w overwriting (JInt 1))) (font_regular overwriting)
                   (font_bold overwriting) (pdf_minimal overwriting) of
              Inr doc \<Rightarrow> (written ?w overwriting (w_behaviour ?w 1) ?src hola hola_payload
                             (asc ''hola'') (st_fs stale_state))
                            (pdf_path ?w overwriting ?src \<mapsto> PdfFile doc)
            | Inl e \<Rightarrow> written ?w overwriting (w_behaviour ?w 1) ?src hola hola_payload
                             (asc ''hola'') (st_fs stale_state))"
    by blast
  then have "st_fs (snd ?r) (txt_path ?w overwriting ?src) = Some (TextFile (asc ''hola''))"
    using txt_path_neq_pdf[of ?w overwriting ?src]
    by (simp add: written_txt split: sum.splits)
  then have new: "st_fs (snd ?r) [asc ''out'', asc ''txt'', asc ''a.txt''] = Some (TextFile (asc ''hola''))"
    unfolding tp .
  from su dir off first c sk second fs lg' on old cs[of overwriting] ns ret new sk0 same
  show ?thesis by blast
qed

text \<open>
  Claim C2 as stated fails: when the transcription of a file fails in the first run, the
  second run with overwrite disabled and the same inputs does not skip the file but
  processes it again.
\<close>

theorem retried_counterexample:
  "\<not> overwrite demo_cfg
   \<and> fst (process_videos (demo_world one_audio (\<lambda>i. service_down)) demo_cfg empty_state) = None
   \<and> st_log (snd (process_videos (demo_world one_audio (\<lambda>i. service_down)) demo_cfg
        (snd (process_videos (demo_world one_audio (\<lambda>i. service_down)) demo_cfg empty_state))))
      = [Found 1, Processing 1 1 (asc ''a.wav''), TranscribeError (ServiceError (asc ''down'')), Finished,
         Found 1, Processing 1 1 (asc ''a.wav''), TranscribeError (ServiceError (asc ''down'')), Finished]"
  by code_simp

section \<open>Colliding base names\<close>

lemma clean_twins:
  "clean_filename u (asc ''a b'') = [97, 95, 98]" "clean_filename u (asc ''a_b'') = [97, 95, 98]"
  by (simp_all add: clean_filename_def Let_def asc_def allowed_char_def isalnum_def isspace_def
      strip_def replace_char_def)

lemma same_base_same_paths:
  "base_name w a = base_name w b \<Longrightarrow>
   txt_path w cfg a = txt_path w cfg b \<and> json_path w cfg a = json_path w cfg b
   \<and> pdf_path w cfg a = pdf_path w cfg b"
  by (simp add: txt_path_def json_path_def pdf_path_def)

text \<open>
  Claim C10. \<open>clean_filename\<close> is not injective: the names \<open>a b\<close> and \<open>a_b\<close> differ
  and have the same base name. Two source files with the same base name have the same
  three destination paths. With overwrite disabled, once one of them is complete the
  other is skipped; with overwrite enabled, an iteration on the other that ends without
  an exception leaves its own text and payload, and its document when rendering
  succeeds, in the files of the first. Nothing in the log of either case tells the two
  files apart from any other pair.
\<close>

theorem base_name_collision:
  "asc ''a b'' \<noteq> asc ''a_b''
   \<and> clean_filename u (asc ''a b'') = clean_filename u (asc ''a_b'')
   \<and> (base_name w a = base_name w b \<longrightarrow>
        txt_path w cfg a = txt_path w cfg b \<and> json_path w cfg a = json_path w cfg b
        \<and> pdf_path w cfg a = pdf_path w cfg b)
   \<and> (base_name w a = base_name w b \<and> \<not> overwrite cfg \<and> complete w cfg a s \<longrightarrow>
        process_file w cfg n idx b s = (None, emit (Skipping idx n (e_name b)) s))
   \<and> (base_name w a = base_name w b \<and> overwrite cfg
        \<and> prepare w (w_behaviour w idx) b (emit (Processing idx n (e_name b)) s) = (None, up, s1)
        \<and> o_transcribe (w_behaviour w idx) up = Inr response
        \<and> extract_transcript_from_response response = Inr (tt, fj, conf)
        \<and> final_text (w_ucd w) tt = Inr tx
        \<and> process_file w cfg n idx b s = (None, s') \<longrightarrow>
        st_fs s' (txt_path w cfg a) = Some (TextFile tx)
        \<and> st_fs s' (json_path w cfg a)
            = Some (if o_json_dump (w_behaviour w idx) = WrOk
                    then TextFile (json_dump (w_str w) False (Some 2) fj) else StrOf response)
        \<and> (\<forall>doc. to_pdf (w_ucd w) (o_fonts (w_behaviour w idx)) (o_now (w_behaviour w idx))
                    (o_pdf_fails (w_behaviour w idx)) tx (doc_title b)
                    (Some (meta_info w cfg conf)) (font_regular cfg) (font_bold cfg)
                    (pdf_minimal cfg) = Inr doc
               \<longrightarrow> st_fs s' (pdf_path w cfg a) = Some (PdfFile doc)))"
proof (intro conjI impI allI)
  show "asc ''a b'' \<noteq> asc ''a_b''"
    by (simp add: asc_def)
  show "clean_filename u (asc ''a b'') = clean_filename u (asc ''a_b'')"
    by (simp add: clean_twins)
next
  assume "base_name w a = base_name w b"
  from same_base_same_paths[OF this, of cfg]
  show "txt_path w cfg a = txt_path w cfg b" "json_path w cfg a = json_path w cfg b"
    "pdf_path w cfg a = pdf_path w cfg b" by simp_all
next
  assume h: "base_name w a = base_name w b \<and> \<not> overwrite cfg \<and> complete w cfg a s"
  with same_base_same_paths[of w a b cfg] have "skip w cfg b s"
    by (simp add: skip_def complete_def)
  then show "process_file w cfg n idx b s = (None, emit (Skipping idx n (e_name b)) s)"
    by (rule process_file_skip)
next
  assume h: "base_name w a = base_name w b \<and> overwrite cfg
        \<and> prepare w (w_behaviour w idx) b (emit (Processing idx n (e_name b)) s) = (None, up, s1)
        \<and> o_transcribe (w_behaviour w idx) up = Inr response
        \<and> extract_transcript_from_response response = Inr (tt, fj, conf)
        \<and> final_text (w_ucd w) tt = Inr tx
        \<and> process_file w cfg n idx b s = (None, s')"
  then have ns: "\<not> skip w cfg b s" by (simp add: skip_def)
  from h same_base_same_paths[of w a b cfg] have p: "txt_path w cfg a = txt_path w cfg b"
    "json_path w cfg a = json_path w cfg b" "pdf_path w cfg a = pdf_path w cfg b" by simp_all
  from h have fs: "st_fs s' =
           (case to_pdf (w_ucd w) (o_fonts (w_behaviour w idx)) (o_now (w_behaviour w idx))
                   (o_pdf_fails (w_behaviour w idx)) tx (doc_title b)
                   (Some (meta_info w cfg conf)) (font_regular cfg) (font_bold cfg) (pdf_minimal cfg) of
              Inr doc \<Rightarrow> (written w cfg (w_behaviour w idx) b response fj tx (st_fs s))
                            (pdf_path w cfg b \<mapsto> PdfFile doc)
            | Inl e \<Rightarrow> written w cfg (w_behaviour w idx) b response fj tx (st_fs s))"
    using process_file_writes[OF ns, of idx n up s1 response tt fj conf tx s'] by blast
  show "st_fs s' (txt_path w cfg a) = Some (TextFile tx)"
    unfolding fs p using txt_path_neq_pdf[of w cfg b]
    by (simp add: written_def split: sum.splits)
  show "st_fs s' (json_path w cfg a)
            = Some (if o_json_dump (w_behaviour w idx) = WrOk
                    then TextFile (json_dump (w_str w) False (Some 2) fj) else StrOf response)"
    unfolding fs p using json_path_neq_pdf[of w cfg b] txt_path_neq_json[of w cfg b]
    by (simp add: written_def split: sum.splits)
  fix doc
  assume "to_pdf (w_ucd w) (o_fonts (w_behaviour w idx)) (o_now (w_behaviour w idx))
                    (o_pdf_fails (w_behaviour w idx)) tx (doc_title b)
                    (Some (meta_info w cfg conf)) (font_regular cfg) (font_bold cfg)
                    (pdf_minimal cfg) = Inr doc"
  then show "st_fs s' (pdf_path w cfg a) = Some (PdfFile doc)"
    unfolding fs p by simp
qed


lemma extract_blank:
  "extract_transcript_from_response (SdkResponse blank_payload)
     = Inr (JStr [32, 10, 9], blank_payload, JNull)"
  by code_simp

lemma confined_blank_service: "confined blank_service"
  using extract_blank
  by (simp add: confined_def blank_service_def all_ok_def string_transcript_def)

lemma confined_all_ok: "confined all_ok"
  using dependable_all_ok by (simp add: dependable_def)

theorem base_name_collision_witness:
  "e_name (a_file ''a b.mp4'') \<noteq> e_name (a_file ''a_b.mp4'')
   \<and> discover ascii_ucd False twins = [a_file ''a b.mp4'', a_file ''a_b.mp4'']
   \<and> base_name (demo_world twins hola_then_blank) (a_file ''a b.mp4'')
       = base_name (demo_world twins hola_then_blank) (a_file ''a_b.mp4'')
   \<and> txt_path (demo_world twins hola_then_blank) demo_cfg (a_file ''a b.mp4'')
       = txt_path (demo_world twins hola_then_blank) demo_cfg (a_file ''a_b.mp4'')
   \<and> \<not> overwrite demo_cfg
   \<and> complete (demo_world twins hola_then_blank) demo_cfg (a_file ''a b.mp4'')
        (snd (process_file (demo_world twins hola_then_blank) demo_cfg 2 1 (a_file ''a b.mp4'')
                empty_state))
   \<and> process_file (demo_world twins hola_then_blank) demo_cfg 2 2 (a_file ''a_b.mp4'')
        (snd (process_file (demo_world twins hola_then_blank) demo_cfg 2 1 (a_file ''a b.mp4'')
                empty_state))
       = (None, emit (Skipping 2 2 (e_name (a_file ''a_b.mp4'')))
           (snd (process_file (demo_world twins hola_then_blank) demo_cfg 2 1 (a_file ''a b.mp4'')
                   empty_state)))
   \<and> overwrite overwriting
   \<and> st_fs (snd (process_file (demo_world twins hola_then_blank) overwriting 2 1
         (a_file ''a b.mp4'') empty_state))
        (txt_path (demo_world twins hola_then_blank) overwriting (a_file ''a b.mp4''))
       = Some (TextFile (asc ''hola''))
   \<and> st_fs (snd (process_file (demo_world twins hola_then_blank) overwriting 2 2
         (a_file ''a_b.mp4'')
         (snd (process_file (demo_world twins hola_then_blank) overwriting 2 1
                 (a_file ''a b.mp4'') empty_state))))
        (txt_path (demo_world twins hola_then_blank) overwriting (a_file ''a b.mp4''))
       = Some (TextFile placeholder)"
proof -
  let ?w = "demo_world twins hola_then_blank"
  let ?a = "a_file ''a b.mp4''"
  let ?b = "a_file ''a_b.mp4''"
  have names: "e_name ?a \<noteq> e_name ?b"
    by (simp add: a_file_def asc_def)
  have disc: "discover ascii_ucd False twins = [?a, ?b]"
    by code_simp
  have bn: "base_name ?w ?a = base_name ?w ?b"
    by code_simp
  have off: "\<not> overwrite demo_cfg" by (simp add: demo_cfg_def)
  have on: "overwrite overwriting" by (simp add: overwriting_def)
  have b1: "w_behaviour ?w 1 = all_ok" and b2: "w_behaviour ?w 2 = blank_service"
    by (simp_all add: demo_world_def hola_then_blank_def)
  have u: "w_ucd ?w = ascii_ucd" by (simp add: demo_world_def)
  have ff: "w_has_ffmpeg ?w" by (simp add: demo_world_def)
  have va: "is_video ?w ?a" and vb: "is_video ?w ?b" by code_simp+
  have d1: "dependable (w_behaviour ?w 1)"
    unfolding b1 by (rule dependable_all_ok)
  have c1: "confined (w_behaviour ?w 1)" unfolding b1 by (rule confined_all_ok)
  have c2: "confined (w_behaviour ?w 2)" unfolding b2 by (rule confined_blank_service)
  note t = base_name_collision[where w = ?w and a = ?a and b = ?b]
  let ?s1 = "snd (process_file ?w demo_cfg 2 1 ?a empty_state)"
  have comp: "complete ?w demo_cfg ?a ?s1"
    by (rule complete_after[OF d1])
  from t[where cfg = demo_cfg] bn have tp: "txt_path ?w demo_cfg ?a = txt_path ?w demo_cfg ?b"
    by blast
  from t[where cfg = demo_cfg and s = ?s1 and n = 2 and idx = 2] bn off comp
  have skipped: "process_file ?w demo_cfg 2 2 ?b ?s1 = (None, emit (Skipping 2 2 (e_name ?b)) ?s1)"
    by blast
  let ?t1 = "snd (process_file ?w overwriting 2 1 ?a empty_state)"
  let ?t2 = "snd (process_file ?w overwriting 2 2 ?b ?t1)"
  have nsa: "\<not> skip ?w overwriting ?a empty_state" and nsb: "\<not> skip ?w overwriting ?b ?t1"
    using on by (simp_all add: skip_def)
  have pra: "prepare ?w (w_behaviour ?w 1) ?a (emit (Processing 1 2 (e_name ?a)) empty_state)
      = (None, TempWav (stem (e_name ?a) @ asc ''.wav''),
         emit (AudioExtracted (stem (e_name ?a) @ asc ''.wav''))
           (emit (Processing 1 2 (e_name ?a)) empty_state))"
    unfolding b1 using va ff by (simp add: prepare_def all_ok_def)
  have prb: "prepare ?w (w_behaviour ?w 2) ?b (emit (Processing 2 2 (e_name ?b)) ?t1)
      = (None, TempWav (stem (e_name ?b) @ asc ''.wav''),
         emit (AudioExtracted (stem (e_name ?b) @ asc ''.wav''))
           (emit (Processing 2 2 (e_name ?b)) ?t1))"
    unfolding b2 using vb ff by (simp add: prepare_def blank_service_def all_ok_def)
  have tra: "o_transcribe (w_behaviour ?w 1) (TempWav (stem (e_name ?a) @ asc ''.wav'')) = Inr hola"
    unfolding b1 by (simp add: all_ok_def)
  have trb: "o_transcribe (w_behaviour ?w 2) (TempWav (stem (e_name ?b) @ asc ''.wav''))
      = Inr (SdkResponse blank_payload)"
    unfolding b2 by (simp add: blank_service_def)
  have fta: "final_text (w_ucd ?w) (JStr (asc ''hola'')) = Inr (asc ''hola'')"
    unfolding u by code_simp
  have ftb: "final_text (w_ucd ?w) (JStr [32, 10, 9]) = Inr placeholder"
    unfolding u by (simp add: final_text_def strip_def isspace_def)
  have oka: "process_file ?w overwriting 2 1 ?a empty_state = (None, ?t1)"
    using process_file_confined[OF c1, of overwriting 2 ?a empty_state] by (simp add: prod_eq_iff)
  have okb: "process_file ?w overwriting 2 2 ?b ?t1 = (None, ?t2)"
    using process_file_confined[OF c2, of overwriting 2 ?b ?t1] by (simp add: prod_eq_iff)
  have bn': "base_name ?w ?a = base_name ?w ?a" by simp
  from base_name_collision[where w = ?w and a = ?a and b = ?a and cfg = overwriting
      and s = empty_state and n = 2 and idx = 1 and s' = ?t1] bn' on pra tra extract_hola fta oka
  have first: "st_fs ?t1 (txt_path ?w overwriting ?a) = Some (TextFile (asc ''hola''))"
    by blast
  from t[where cfg = overwriting and s = ?t1 and n = 2 and idx = 2 and s' = ?t2]
    bn on prb trb extract_blank ftb okb
  have second: "st_fs ?t2 (txt_path ?w overwriting ?a) = Some (TextFile placeholder)"
    by blast
  from names disc bn tp off comp skipped on first second show ?thesis by blast
qed

section \<open>Failures of single files\<close>




















end
